theory Spec2Isabelle
  imports Main "HOL-Library.Multiset"
begin

section \<open>Values, tiles and application state\<close>

text \<open>
  The program is Python: the dataclasses annotate their fields (\<open>id: str\<close>,
  \<open>columns: int\<close>, ...) but nothing enforces the annotations, and
  \<open>ConfigManager.load\<close> stores whatever the JSON file holds. Field values are
  therefore the values a JSON document can denote: \<open>None\<close>, booleans, integers,
  strings, lists and dictionaries with string keys (a dictionary is the list of its
  items in insertion order). Numbers with a fractional part are left out of the model.
\<close>

datatype pyval =
    PNone
  | PBool bool
  | PInt int
  | PStr string
  | PList "pyval list"
  | PDict "(string \<times> pyval) list"

datatype error = TypeError | AttributeError | OSError | JSONDecodeError | OverflowError

text \<open>The dataclass \<open>Tile\<close>; \<open>id\<close> and \<open>size\<close> clash with constants of HOL.\<close>

record Tile =
  tile_id :: pyval
  title :: pyval
  color :: pyval
  icon_path :: pyval
  action_type :: pyval
  action_value :: pyval
  tile_size :: pyval
  row :: pyval
  col :: pyval

text \<open>
  The dataclass \<open>AppState\<close>. Its \<open>tiles\<close> field defaults to \<open>None\<close>, hence the
  option. The type parameter is what the list holds: tile objects by reference (an
  address into a store) where the code mutates or reorders them, tile values where it
  only reads them or has just built them.
\<close>

record 't AppState =
  theme :: pyval
  columns :: pyval
  tiles :: "'t list option"

definition DEFAULT_COLUMNS :: int where
  "DEFAULT_COLUMNS = 4"

definition CELL_SIZE :: int where
  "CELL_SIZE = 140"

definition CELL_GAP :: int where
  "CELL_GAP = 12"

section \<open>Tile sizes\<close>

text \<open>
  \<open>SIZE_MAP.get(size, (1,1))\<close>: a dictionary lookup hashes its key, so a list or a
  dictionary as key raises \<open>TypeError\<close>; every other value that is not one of the
  three keys yields the default.
\<close>

definition SIZE_MAP :: "(string \<times> (int \<times> int)) list" where
  "SIZE_MAP = [(''small'', (1, 1)), (''wide'', (1, 2)), (''large'', (2, 2))]"

fun SIZE_MAP_get :: "pyval \<Rightarrow> error + (int \<times> int)" where
  "SIZE_MAP_get (PStr s) = Inr (case map_of SIZE_MAP s of Some p \<Rightarrow> p | None \<Rightarrow> (1, 1))"
| "SIZE_MAP_get (PList xs) = Inl TypeError"
| "SIZE_MAP_get (PDict kvs) = Inl TypeError"
| "SIZE_MAP_get v = Inr (1, 1)"

text \<open>\<open>TileButton.tile_pixel_size\<close>: the pair is (width, height) of the \<open>QSize\<close>.\<close>

definition tile_pixel_size :: "Tile \<Rightarrow> error + (int \<times> int)" where
  "tile_pixel_size t =
     (case SIZE_MAP_get (tile_size t) of
        Inl e \<Rightarrow> Inl e
      | Inr (r, c) \<Rightarrow>
          Inr (c * CELL_SIZE + (c - 1) * CELL_GAP, r * CELL_SIZE + (r - 1) * CELL_GAP))"

text \<open>
  The constructor call \<open>Tile(id=..., title=...)\<close>: the two required fields, and the
  defaults of the dataclass for the others.
\<close>

definition new_Tile :: "pyval \<Rightarrow> pyval \<Rightarrow> Tile" where
  "new_Tile i t =
     \<lparr>tile_id = i, title = t, color = PStr ''#0078D7'', icon_path = PNone,
      action_type = PStr ''url'', action_value = PStr '''', tile_size = PStr ''small'',
      row = PInt 0, col = PInt 0\<rparr>"

section \<open>The grid packer\<close>

text \<open>
  \<open>TileGrid._pack_tiles\<close>. The occupancy dictionary maps cells \<open>(row, column)\<close> to
  \<open>True\<close>; \<open>occupancy.get(k)\<close> is truthy exactly when the key is present with a
  true value.
\<close>

type_synonym cell = "int \<times> int"

type_synonym occupancy = "cell \<rightharpoonup> bool"

definition occupied :: "occupancy \<Rightarrow> cell \<Rightarrow> bool" where
  "occupied occ k = (occ k = Some True)"

text \<open>\<open>range(a, b)\<close>: the integers from \<open>a\<close> up to \<open>b - 1\<close>, none when \<open>b \<le> a\<close>.\<close>

definition py_range :: "int \<Rightarrow> int \<Rightarrow> int list" where
  "py_range a b = [a..b - 1]"

text \<open>
  The two nested loops that compute the flag \<open>ok\<close>: it stays true when no cell of the
  rectangle is occupied (the \<open>break\<close>s only cut the scan short).
\<close>

definition ok_at :: "occupancy \<Rightarrow> int \<Rightarrow> int \<Rightarrow> int \<Rightarrow> int \<Rightarrow> bool" where
  "ok_at occ r c rspan cspan =
     list_all (\<lambda>rr. list_all (\<lambda>cc. \<not> occupied occ (rr, cc)) (py_range c (c + cspan)))
       (py_range r (r + rspan))"

text \<open>\<open>occupancy[(rr, cc)] = True\<close>, and the two nested loops that mark a rectangle.\<close>

definition occupy :: "cell \<Rightarrow> occupancy \<Rightarrow> occupancy" where
  "occupy k occ = occ(k \<mapsto> True)"

definition mark :: "occupancy \<Rightarrow> int \<Rightarrow> int \<Rightarrow> int \<Rightarrow> int \<Rightarrow> occupancy" where
  "mark occ r c rspan cspan =
     fold (\<lambda>rr. fold (\<lambda>cc. occupy (rr, cc)) (py_range c (c + cspan)))
       (py_range r (r + rspan)) occ"

text \<open>
  One pass of \<open>for c in range(columns)\<close> in row \<open>r\<close>: the first column that is not
  skipped by \<open>if c + cspan > columns: continue\<close> and at which \<open>ok\<close> holds.
\<close>

definition scan_row :: "occupancy \<Rightarrow> int \<Rightarrow> int \<Rightarrow> int \<Rightarrow> int \<Rightarrow> int option" where
  "scan_row occ cols rspan cspan r =
     find (\<lambda>c. \<not> c + cspan > cols \<and> ok_at occ r c rspan cspan) (py_range 0 cols)"

text \<open>
  The \<open>while True\<close> loop of \<open>first_fit\<close>, from row \<open>r\<close> on. It has no exit but the
  \<open>return\<close>, so it may run forever: \<open>None\<close> is the run that never returns. The result
  is the updated occupancy with the position found.
\<close>

partial_function (option) first_fit_from ::
  "occupancy \<Rightarrow> int \<Rightarrow> int \<Rightarrow> int \<Rightarrow> int \<Rightarrow> (occupancy \<times> int \<times> int) option" where
  "first_fit_from occ cols rspan cspan r =
     (case scan_row occ cols rspan cspan r of
        Some c \<Rightarrow> Some (mark occ r c rspan cspan, r, c)
      | None \<Rightarrow> first_fit_from occ cols rspan cspan (r + 1))"

definition first_fit ::
  "occupancy \<Rightarrow> int \<Rightarrow> int \<Rightarrow> int \<Rightarrow> (occupancy \<times> int \<times> int) option" where
  "first_fit occ cols rspan cspan = first_fit_from occ cols rspan cspan 0"

text \<open>
  The tiles are objects: the list holds references, and \<open>t.row, t.col = r, c\<close> writes
  through the reference. The store maps each reference to the current value of its
  object. A placement is \<open>(row, col, rowspan, colspan)\<close>.
\<close>

type_synonym ref = nat

type_synonym store = "ref \<Rightarrow> Tile"

type_synonym placement = "int \<times> int \<times> int \<times> int"

definition set_position :: "Tile \<Rightarrow> int \<Rightarrow> int \<Rightarrow> Tile" where
  "set_position t r c = t\<lparr>row := PInt r, col := PInt c\<rparr>"

text \<open>
  The loop \<open>for t in tiles\<close>. The outcome is \<open>None\<close> when \<open>first_fit\<close> never returns.
  Otherwise it is the store as the loop leaves it, with the exception raised by the
  size lookup (the tiles placed before keep their new positions) or with the list
  \<open>positions\<close> that is returned.
\<close>

fun pack_loop ::
  "int \<Rightarrow> ref list \<Rightarrow> store \<Rightarrow> occupancy \<Rightarrow> (ref \<times> placement) list \<Rightarrow>
   (store \<times> (error + (ref \<times> placement) list)) option" where
  "pack_loop cols [] h occ positions = Some (h, Inr positions)"
| "pack_loop cols (t # ts) h occ positions =
     (case SIZE_MAP_get (tile_size (h t)) of
        Inl e \<Rightarrow> Some (h, Inl e)
      | Inr (rspan, cspan) \<Rightarrow>
          (case first_fit occ cols rspan cspan of
             None \<Rightarrow> None
           | Some (occ', r, c) \<Rightarrow>
               pack_loop cols ts (h(t := set_position (h t) r c)) occ'
                 (positions @ [(t, (r, c, rspan, cspan))])))"

definition pack_tiles ::
  "store \<Rightarrow> ref list \<Rightarrow> int \<Rightarrow> (store \<times> (error + (ref \<times> placement) list)) option" where
  "pack_tiles h ts cols = pack_loop cols ts h Map.empty []"

subsection \<open>Notions used to state the properties of the packer\<close>

text \<open>The cells of the rectangle of a placement.\<close>

definition in_rect :: "placement \<Rightarrow> cell \<Rightarrow> bool" where
  "in_rect p k =
     (case p of (r, c, rspan, cspan) \<Rightarrow>
        r \<le> fst k \<and> fst k < r + rspan \<and> c \<le> snd k \<and> snd k < c + cspan)"

text \<open>The cells covered by the tiles placed so far.\<close>

definition covered :: "(ref \<times> placement) list \<Rightarrow> cell \<Rightarrow> bool" where
  "covered ps k = list_ex (\<lambda>p. in_rect (snd p) k) ps"

text \<open>
  A position at which a tile of the given spans may go: inside the grid horizontally,
  on no busy cell. The row-major first such position is the least one in the order
  "smaller row first, then smaller column".
\<close>

definition admissible :: "(cell \<Rightarrow> bool) \<Rightarrow> int \<Rightarrow> int \<Rightarrow> int \<Rightarrow> int \<Rightarrow> int \<Rightarrow> bool" where
  "admissible busy cols rspan cspan r c =
     (0 \<le> r \<and> 0 \<le> c \<and> c + cspan \<le> cols \<and>
      (\<forall>k. in_rect (r, c, rspan, cspan) k \<longrightarrow> \<not> busy k))"

definition row_major_first :: "(cell \<Rightarrow> bool) \<Rightarrow> int \<Rightarrow> int \<Rightarrow> int \<Rightarrow> int \<Rightarrow> int \<Rightarrow> bool" where
  "row_major_first busy cols rspan cspan r c =
     (admissible busy cols rspan cspan r c \<and>
      (\<forall>r' c'. admissible busy cols rspan cspan r' c' \<longrightarrow> r < r' \<or> (r = r' \<and> c \<le> c')))"

text \<open>The occupied cells lie in finitely many rows.\<close>

definition rows_bounded :: "occupancy \<Rightarrow> bool" where
  "rows_bounded occ = (\<exists>R. \<forall>k. occupied occ k \<longrightarrow> fst k < R)"


text \<open>The spans that the sizes stand for, as the documentation of the program lists them.\<close>

definition listed_spans :: "string \<Rightarrow> int \<times> int" where
  "listed_spans s =
     (if s = ''small'' then (1, 1)
      else if s = ''wide'' then (1, 2)
      else if s = ''large'' then (2, 2)
      else (1, 1))"

section \<open>Rebuilding the grid and changing the column count\<close>

text \<open>
  \<open>self.state.columns + delta\<close> with an integer \<open>delta\<close>: booleans count as 0 and 1,
  every other non-integer raises \<open>TypeError\<close>.
\<close>

fun py_add_int :: "pyval \<Rightarrow> int \<Rightarrow> error + int" where
  "py_add_int (PInt n) d = Inr (n + d)"
| "py_add_int (PBool b) d = Inr ((if b then 1 else 0) + d)"
| "py_add_int v d = Inl TypeError"

text \<open>
  The widgets belong to the toolkit. The program hands them values of the state, which
  need not have the annotated types, and whether a widget call raises on such a value
  is decided by the toolkit; it is a parameter here, and the properties below hold
  for each choice of it. \<open>setCurrentText\<close> stands for the call
  \<open>theme_combo.setCurrentText(self.state.theme)\<close>, and \<open>add_button\<close> for the body of
  the loop of \<open>rebuild\<close>: constructing the \<open>TileButton\<close> of a tile, connecting it and
  adding it to the grid. Neither assigns a field of the state or of a tile.
\<close>

record toolkit =
  setCurrentText :: "pyval \<Rightarrow> error option"
  add_button :: "Tile \<Rightarrow> error option"

text \<open>\<open>range(columns)\<close>: its argument has to be an integer; booleans count as 0 and 1.\<close>

fun as_int :: "pyval \<Rightarrow> error + int" where
  "as_int (PInt n) = Inr n"
| "as_int (PBool b) = Inr (if b then 1 else 0)"
| "as_int v = Inl TypeError"

text \<open>
  The loop \<open>for tile, (row, col, rowspan, colspan) in positions\<close> of \<open>rebuild\<close>: it
  stops at the first button whose construction raises.
\<close>

fun add_buttons :: "toolkit \<Rightarrow> store \<Rightarrow> (ref \<times> placement) list \<Rightarrow> error option" where
  "add_buttons tk h [] = None"
| "add_buttons tk h (p # ps) =
     (case add_button tk (h (fst p)) of
        Some e \<Rightarrow> Some e
      | None \<Rightarrow> add_buttons tk h ps)"

text \<open>
  \<open>TileGrid.rebuild\<close>. The call \<open>_pack_tiles(self.state.tiles, self.state.columns)\<close>
  raises \<open>TypeError\<close> at \<open>for t in tiles\<close> when the list is \<open>None\<close>, and at the size
  lookup or at \<open>range(columns)\<close> of the first tile when the column count is no
  integer; with no tile it returns the empty list whatever the column count is. The
  buttons are then made from the tiles as the packer left them. The last statement,
  \<open>self.on_change()\<close>, runs \<open>MainWindow._auto_save\<close>, whose whole body is inside
  \<open>try ... except Exception\<close>: it raises nothing and assigns nothing.

  The result is \<open>None\<close> when the packer never returns; otherwise it is the store when
  control leaves \<open>rebuild\<close>, and the exception it leaves with, if any.
\<close>

definition rebuild :: "toolkit \<Rightarrow> store \<Rightarrow> ref AppState \<Rightarrow> (store \<times> error option) option" where
  "rebuild tk h s =
     (case tiles s of
        None \<Rightarrow> Some (h, Some TypeError)
      | Some ts \<Rightarrow>
          (case as_int (columns s) of
             Inl e \<Rightarrow> Some (h, if ts = [] then None else Some e)
           | Inr cols \<Rightarrow>
               (case pack_tiles h ts cols of
                  None \<Rightarrow> None
                | Some (h', Inl e) \<Rightarrow> Some (h', Some e)
                | Some (h', Inr positions) \<Rightarrow> Some (h', add_buttons tk h' positions))))"

text \<open>
  \<open>MainWindow._change_columns\<close>. An exception of the addition leaves before the
  assignment; an exception of \<open>rebuild\<close> leaves after it. The result is the state and
  the store when control leaves the method, and the exception it leaves with, if any.
\<close>

definition change_columns ::
  "toolkit \<Rightarrow> store \<Rightarrow> ref AppState \<Rightarrow> int \<Rightarrow> (ref AppState \<times> store \<times> error option) option" where
  "change_columns tk h s delta =
     (case py_add_int (columns s) delta of
        Inl e \<Rightarrow> Some (s, h, Some e)
      | Inr n \<Rightarrow>
          (let s' = s\<lparr>columns := PInt (max 2 (min 8 n))\<rparr>
           in map_option (Pair s') (rebuild tk h s')))"

text \<open>
  The spin box of the settings dialog is a widget of Qt, not code of the program; it
  is modelled from Qt's documentation of \<open>QSpinBox\<close>: a new box has range 0 to 99 and
  value 0, \<open>setRange\<close> moves the value into the new range, \<open>setValue\<close> and every
  edit by the user clamp to the range. The value is a C \<open>int\<close>, so the binding raises
  \<open>OverflowError\<close> on a Python integer outside 32 bits and \<open>TypeError\<close> on a value
  that is no integer.
\<close>

record SpinBox =
  minimum :: int
  maximum :: int
  spin_value :: int

definition QSpinBox :: SpinBox where
  "QSpinBox = \<lparr>minimum = 0, maximum = 99, spin_value = 0\<rparr>"

definition setRange :: "int \<Rightarrow> int \<Rightarrow> SpinBox \<Rightarrow> SpinBox" where
  "setRange lo hi b =
     \<lparr>minimum = lo, maximum = max lo hi, spin_value = max lo (min (max lo hi) (spin_value b))\<rparr>"

definition setValue :: "int \<Rightarrow> SpinBox \<Rightarrow> SpinBox" where
  "setValue v b = b\<lparr>spin_value := max (minimum b) (min (maximum b) v)\<rparr>"

fun as_c_int :: "pyval \<Rightarrow> error + int" where
  "as_c_int (PInt n) = (if - (2 ^ 31) \<le> n \<and> n < 2 ^ 31 then Inr n else Inl OverflowError)"
| "as_c_int (PBool b) = Inr (if b then 1 else 0)"
| "as_c_int v = Inl TypeError"

text \<open>
  What the user does in the dialog: the theme picked in the combo box, the values
  typed or stepped into the spin box, in order, and whether the dialog is accepted.
\<close>

record SettingsInput =
  picked_theme :: string
  typed_columns :: "int list"
  accepted :: bool

text \<open>
  \<open>TileGrid._open_settings\<close>. The two widget calls that take values of the state come
  before the dialog is shown. When the dialog is accepted the two fields are assigned,
  \<open>apply_theme\<close> sets a style sheet chosen by comparing the theme with \<open>"dark"\<close>, and
  \<open>rebuild\<close> runs. The result is as for \<open>_change_columns\<close>.
\<close>

definition open_settings ::
  "toolkit \<Rightarrow> store \<Rightarrow> ref AppState \<Rightarrow> SettingsInput \<Rightarrow>
   (ref AppState \<times> store \<times> error option) option" where
  "open_settings tk h s ui =
     (case setCurrentText tk (theme s) of
        Some e \<Rightarrow> Some (s, h, Some e)
      | None \<Rightarrow>
          (case as_c_int (columns s) of
             Inl e \<Rightarrow> Some (s, h, Some e)
           | Inr n \<Rightarrow>
               (let col_spin = fold setValue (typed_columns ui) (setValue n (setRange 2 8 QSpinBox))
                in if accepted ui
                   then (let s' = s\<lparr>theme := PStr (picked_theme ui),
                                     columns := PInt (spin_value col_spin)\<rparr>
                         in map_option (Pair s') (rebuild tk h s'))
                   else Some (s, h, None))))"

section \<open>Reordering the tiles\<close>

text \<open>
  The comparison \<open>==\<close> on the values of the model. Booleans are the integers 0 and 1;
  lists are equal when they have equal elements in the same order; dictionaries, whose
  keys are distinct, are equal when they have the same number of items and every item
  of the first has an equal value under the same key in the second. Values of
  different kinds are unequal.
\<close>

fun py_eq :: "pyval \<Rightarrow> pyval \<Rightarrow> bool"
  and py_eq_list :: "pyval list \<Rightarrow> pyval list \<Rightarrow> bool"
  and py_eq_items :: "(string \<times> pyval) list \<Rightarrow> (string \<times> pyval) list \<Rightarrow> bool"
  and py_eq_item :: "string \<Rightarrow> pyval \<Rightarrow> (string \<times> pyval) list \<Rightarrow> bool"
where
  "py_eq PNone PNone = True"
| "py_eq (PBool a) (PBool b) = (a = b)"
| "py_eq (PBool a) (PInt n) = (n = (if a then 1 else 0))"
| "py_eq (PInt n) (PBool a) = (n = (if a then 1 else 0))"
| "py_eq (PInt m) (PInt n) = (m = n)"
| "py_eq (PStr s) (PStr t) = (s = t)"
| "py_eq (PList xs) (PList ys) = py_eq_list xs ys"
| "py_eq (PDict a) (PDict b) = (length a = length b \<and> py_eq_items a b)"
| "py_eq _ _ = False"
| "py_eq_list [] [] = True"
| "py_eq_list (x # xs) (y # ys) = (py_eq x y \<and> py_eq_list xs ys)"
| "py_eq_list _ _ = False"
| "py_eq_items [] b = True"
| "py_eq_items ((k, v) # a) b = (py_eq_item k v b \<and> py_eq_items a b)"
| "py_eq_item k v [] = False"
| "py_eq_item k v ((k', v') # b) = (if k = k' then py_eq v v' else py_eq_item k v b)"

text \<open>
  \<open>TileGrid._index_of\<close>: the loop over \<open>enumerate(self.state.tiles)\<close> returns the index
  of the first tile whose \<open>id\<close> equals the \<open>id\<close> of the given tile, and \<open>None\<close> after
  the loop.
\<close>

fun index_from :: "store \<Rightarrow> pyval \<Rightarrow> ref list \<Rightarrow> nat \<Rightarrow> nat option" where
  "index_from h v [] i = None"
| "index_from h v (t # ts) i =
     (if py_eq (tile_id (h t)) v then Some i else index_from h v ts (Suc i))"

definition index_of :: "store \<Rightarrow> ref list \<Rightarrow> ref \<Rightarrow> nat option" where
  "index_of h ts t = index_from h (tile_id (h t)) ts 0"

text \<open>
  \<open>TileGrid.move_tile\<close>. Iterating over the list raises \<open>TypeError\<close> when it is \<open>None\<close>.
  The two list items are exchanged in place, and \<open>rebuild\<close> runs after the exchange.
  The result is the state and the store when control leaves the method, with the
  exception it leaves with, if any; it is \<open>None\<close> when \<open>rebuild\<close> never returns.
\<close>

definition move_tile ::
  "toolkit \<Rightarrow> store \<Rightarrow> ref AppState \<Rightarrow> ref \<Rightarrow> int \<Rightarrow>
   (ref AppState \<times> store \<times> error option) option" where
  "move_tile tk h s t delta =
     (case tiles s of
        None \<Rightarrow> Some (s, h, Some TypeError)
      | Some ts \<Rightarrow>
          (case index_of h ts t of
             None \<Rightarrow> Some (s, h, None)
           | Some i \<Rightarrow>
               (let j = max 0 (min (int (length ts) - 1) (int i + delta))
                in if int i \<noteq> j
                   then (let s' = s\<lparr>tiles := Some (ts[i := ts ! nat j, nat j := ts ! i])\<rparr>
                         in map_option (Pair s') (rebuild tk h s'))
                   else Some (s, h, None))))"

subsection \<open>Notions used to state the properties of reordering\<close>

text \<open>The index of the first tile of the list whose \<open>id\<close> equals a given value.\<close>

definition first_with_id :: "store \<Rightarrow> ref list \<Rightarrow> pyval \<Rightarrow> nat \<Rightarrow> bool" where
  "first_with_id h ts v i =
     (i < length ts \<and> py_eq (tile_id (h (ts ! i))) v \<and>
      (\<forall>k<i. \<not> py_eq (tile_id (h (ts ! k))) v))"

text \<open>An index plus \<open>delta\<close>, clamped to the valid indices of a list of length \<open>n\<close>.\<close>

definition clamped_target :: "nat \<Rightarrow> nat \<Rightarrow> int \<Rightarrow> nat" where
  "clamped_target n i delta = nat (max 0 (min (int n - 1) (int i + delta)))"

section \<open>The configuration file\<close>

text \<open>
  What \<open>ConfigManager._default_state\<close> reads from its environment: \<open>sys.platform\<close> and
  the result of \<open>os.path.expanduser("~")\<close>.
\<close>

record env =
  platform :: string
  home :: string

definition startswith :: "string \<Rightarrow> string \<Rightarrow> bool" where
  "startswith s p = (take (length p) s = p)"

text \<open>
  \<open>ConfigManager._default_state\<close>. The five constructor calls give every field but
  \<open>row\<close> and \<open>col\<close>, which take the default 0 of the dataclass.
\<close>

definition default_state :: "env \<Rightarrow> Tile AppState" where
  "default_state ev =
     \<lparr>theme = PStr ''dark'', columns = PInt DEFAULT_COLUMNS,
      tiles = Some
        [\<lparr>tile_id = PStr ''tile_browser'', title = PStr ''Browser'', color = PStr ''#0078D7'',
          icon_path = PNone, action_type = PStr ''url'',
          action_value = PStr ''https://www.example.com'', tile_size = PStr ''wide'',
          row = PInt 0, col = PInt 0\<rparr>,
         \<lparr>tile_id = PStr ''tile_docs'', title = PStr ''Documents'', color = PStr ''#107C10'',
          icon_path = PNone, action_type = PStr ''file'',
          action_value = PStr (home ev), tile_size = PStr ''small'',
          row = PInt 0, col = PInt 0\<rparr>,
         \<lparr>tile_id = PStr ''tile_cmd'', title = PStr ''Notepad'', color = PStr ''#D83B01'',
          icon_path = PNone, action_type = PStr ''command'',
          action_value =
            PStr (if startswith (platform ev) ''win'' then ''notepad''
                  else if platform ev = ''darwin'' then ''open -a TextEdit''
                  else ''gedit''),
          tile_size = PStr ''small'', row = PInt 0, col = PInt 0\<rparr>,
         \<lparr>tile_id = PStr ''tile_clock'', title = PStr ''Clock'', color = PStr ''#5C2D91'',
          icon_path = PNone, action_type = PStr ''builtin'',
          action_value = PStr ''clock'', tile_size = PStr ''large'',
          row = PInt 0, col = PInt 0\<rparr>,
         \<lparr>tile_id = PStr ''tile_settings'', title = PStr ''Settings'', color = PStr ''#FFB900'',
          icon_path = PNone, action_type = PStr ''builtin'',
          action_value = PStr ''settings'', tile_size = PStr ''small'',
          row = PInt 0, col = PInt 0\<rparr>]\<rparr>"

text \<open>
  \<open>dataclasses.asdict\<close> on a tile: the dictionary of its nine fields, in the order of
  their declaration, under the names they have in the program.
\<close>

definition asdict :: "Tile \<Rightarrow> pyval" where
  "asdict t =
     PDict [(''id'', tile_id t), (''title'', title t), (''color'', color t),
            (''icon_path'', icon_path t), (''action_type'', action_type t),
            (''action_value'', action_value t), (''size'', tile_size t),
            (''row'', row t), (''col'', col t)]"

definition Tile_fields :: "string list" where
  "Tile_fields =
     [''id'', ''title'', ''color'', ''icon_path'', ''action_type'', ''action_value'', ''size'',
      ''row'', ''col'']"

text \<open>The value under a key of a dictionary, or a default when the key is missing.\<close>

definition item_or :: "(string \<times> pyval) list \<Rightarrow> string \<Rightarrow> pyval \<Rightarrow> pyval" where
  "item_or kvs k d = (case map_of kvs k of Some v \<Rightarrow> v | None \<Rightarrow> d)"

text \<open>
  The call \<open>Tile(**t)\<close>. It raises \<open>TypeError\<close> when \<open>t\<close> is no dictionary, when a key
  is not the name of a field, and when \<open>id\<close> or \<open>title\<close>, which have no default, is
  missing. The other fields take the defaults of the dataclass.
\<close>

fun Tile_init :: "pyval \<Rightarrow> error + Tile" where
  "Tile_init (PDict kvs) =
     (if \<not> list_all (\<lambda>k. k \<in> set Tile_fields) (map fst kvs) then Inl TypeError
      else
        (case map_of kvs ''id'' of
           None \<Rightarrow> Inl TypeError
         | Some i \<Rightarrow>
             (case map_of kvs ''title'' of
                None \<Rightarrow> Inl TypeError
              | Some ti \<Rightarrow>
                  Inr \<lparr>tile_id = i, title = ti,
                       color = item_or kvs ''color'' (PStr ''#0078D7''),
                       icon_path = item_or kvs ''icon_path'' PNone,
                       action_type = item_or kvs ''action_type'' (PStr ''url''),
                       action_value = item_or kvs ''action_value'' (PStr ''''),
                       tile_size = item_or kvs ''size'' (PStr ''small''),
                       row = item_or kvs ''row'' (PInt 0),
                       col = item_or kvs ''col'' (PInt 0)\<rparr>)))"
| "Tile_init v = Inl TypeError"

text \<open>The comprehension \<open>[Tile(**t) for t in ...]\<close>: the first exception ends it.\<close>

fun Tile_list :: "pyval list \<Rightarrow> error + Tile list" where
  "Tile_list [] = Inr []"
| "Tile_list (v # vs) =
     (case Tile_init v of
        Inl e \<Rightarrow> Inl e
      | Inr t \<Rightarrow>
          (case Tile_list vs of
             Inl e \<Rightarrow> Inl e
           | Inr ts \<Rightarrow> Inr (t # ts)))"

text \<open>
  \<open>data.get(key, default)\<close>: only a dictionary has the method \<open>get\<close>; on every other
  value the attribute lookup raises \<open>AttributeError\<close>.
\<close>

fun dict_get :: "pyval \<Rightarrow> string \<Rightarrow> pyval \<Rightarrow> error + pyval" where
  "dict_get (PDict kvs) k d = Inr (item_or kvs k d)"
| "dict_get v k d = Inl AttributeError"

text \<open>
  Iteration, as in \<open>for t in v\<close>: a list yields its elements, a dictionary its keys, a
  string its characters as strings of length one; the other values raise \<open>TypeError\<close>.
\<close>

fun py_iter :: "pyval \<Rightarrow> error + pyval list" where
  "py_iter (PList xs) = Inr xs"
| "py_iter (PDict kvs) = Inr (map (\<lambda>kv. PStr (fst kv)) kvs)"
| "py_iter (PStr s) = Inr (map (\<lambda>c. PStr [c]) s)"
| "py_iter v = Inl TypeError"

text \<open>
  The file system. \<open>json.dump\<close> and \<open>json.load\<close> are library functions, and the text
  they write and read is not modelled: a file is represented by what \<open>json.load\<close> makes
  of it, the value that its text denotes or a failure to parse or decode it. The limits
  of the library itself (nesting depth, number of digits of an integer) are left out.
  At a path there is a file or nothing; \<open>readable\<close> and \<open>writable\<close> tell whether
  \<open>open(path, "r")\<close> on an existing file and \<open>open(path, "w")\<close>, which creates a missing
  file, succeed or raise \<open>OSError\<close>; \<open>disk_full\<close> tells whether writing to a file opened
  for writing raises \<open>OSError\<close>.
\<close>

datatype document = Json pyval | Malformed

record fs =
  file_at :: "string \<Rightarrow> document option"
  readable :: "string \<Rightarrow> bool"
  writable :: "string \<Rightarrow> bool"
  disk_full :: bool

text \<open>\<open>with open(self.path, "r", encoding="utf-8") as f: data = json.load(f)\<close>.\<close>

definition read_json :: "fs \<Rightarrow> string \<Rightarrow> error + pyval" where
  "read_json f p =
     (case file_at f p of
        None \<Rightarrow> Inl OSError
      | Some d \<Rightarrow>
          (if \<not> readable f p then Inl OSError
           else (case d of Json v \<Rightarrow> Inr v | Malformed \<Rightarrow> Inl JSONDecodeError)))"

text \<open>The body of the \<open>try\<close> statement of \<open>ConfigManager.load\<close>.\<close>

definition load_body :: "fs \<Rightarrow> string \<Rightarrow> error + Tile AppState" where
  "load_body f p =
     (case read_json f p of
        Inl e \<Rightarrow> Inl e
      | Inr data \<Rightarrow>
          (case dict_get data ''tiles'' (PList []) of
             Inl e \<Rightarrow> Inl e
           | Inr tv \<Rightarrow>
               (case py_iter tv of
                  Inl e \<Rightarrow> Inl e
                | Inr vs \<Rightarrow>
                    (case Tile_list vs of
                       Inl e \<Rightarrow> Inl e
                     | Inr ts \<Rightarrow>
                         (case dict_get data ''theme'' (PStr ''dark'') of
                            Inl e \<Rightarrow> Inl e
                          | Inr th \<Rightarrow>
                              (case dict_get data ''columns'' (PInt DEFAULT_COLUMNS) of
                                 Inl e \<Rightarrow> Inl e
                               | Inr c \<Rightarrow> Inr \<lparr>theme = th, columns = c, tiles = Some ts\<rparr>))))))"

text \<open>
  \<open>ConfigManager.load\<close>: the test \<open>os.path.exists\<close>, then the \<open>try\<close> statement, whose
  handler \<open>except Exception\<close> catches every exception of the model.
\<close>

definition load :: "env \<Rightarrow> fs \<Rightarrow> string \<Rightarrow> error + Tile AppState" where
  "load ev f p =
     (if file_at f p = None then Inr (default_state ev)
      else
        (case load_body f p of
           Inl e \<Rightarrow> Inr (default_state ev)
         | Inr s \<Rightarrow> Inr s))"

text \<open>\<open>state.tiles or []\<close>: \<open>None\<close> and the empty list are both false.\<close>

definition tiles_or_empty :: "'t AppState \<Rightarrow> 't list" where
  "tiles_or_empty s = (case tiles s of None \<Rightarrow> [] | Some ts \<Rightarrow> if ts = [] then [] else ts)"

definition payload :: "Tile AppState \<Rightarrow> pyval" where
  "payload s =
     PDict [(''theme'', theme s), (''columns'', columns s),
            (''tiles'', PList (map asdict (tiles_or_empty s)))]"

text \<open>
  \<open>ConfigManager.save\<close>. The payload is built first. Opening the file for writing
  truncates it, so an exception while writing leaves a text that does not parse. The
  result is the file system when control leaves \<open>save\<close>, and the exception it leaves
  with, if any.
\<close>

definition save :: "fs \<Rightarrow> string \<Rightarrow> Tile AppState \<Rightarrow> fs \<times> error option" where
  "save f p s =
     (let data = payload s
      in if \<not> writable f p then (f, Some OSError)
         else if disk_full f then (f\<lparr>file_at := (file_at f)(p \<mapsto> Malformed)\<rparr>, Some OSError)
         else (f\<lparr>file_at := (file_at f)(p \<mapsto> Json data)\<rparr>, None))"

section \<open>Properties of the packer\<close>

lemma find_upto_Some:
  "find P [a..b] = Some x \<longleftrightarrow> a \<le> x \<and> x \<le> b \<and> P x \<and> (\<forall>y. a \<le> y \<and> y < x \<longrightarrow> \<not> P y)"
proof (induction a b rule: upto.induct)
  case (1 i j)
  show ?case
  proof (cases "i \<le> j")
    case False
    then show ?thesis by (simp add: upto.simps)
  next
    case True
    then have e: "[i..j] = i # [i + 1..j]" by (simp add: upto.simps)
    show ?thesis
    proof (cases "P i")
      case True
      with \<open>i \<le> j\<close> show ?thesis unfolding e by (auto simp: not_less)
    next
      case False
      have "find P [i..j] = find P [i + 1..j]" unfolding e using False by simp
      also have "\<dots> = Some x \<longleftrightarrow> i + 1 \<le> x \<and> x \<le> j \<and> P x \<and> (\<forall>y. i + 1 \<le> y \<and> y < x \<longrightarrow> \<not> P y)"
        using 1 [OF True] .
      also have "\<dots> \<longleftrightarrow> i \<le> x \<and> x \<le> j \<and> P x \<and> (\<forall>y. i \<le> y \<and> y < x \<longrightarrow> \<not> P y)"
      proof -
        have q: "(\<forall>y. i + 1 \<le> y \<and> y < x \<longrightarrow> \<not> P y) \<longleftrightarrow> (\<forall>y. i \<le> y \<and> y < x \<longrightarrow> \<not> P y)"
        proof
          assume a: "\<forall>y. i + 1 \<le> y \<and> y < x \<longrightarrow> \<not> P y"
          show "\<forall>y. i \<le> y \<and> y < x \<longrightarrow> \<not> P y"
          proof (intro allI impI)
            fix y assume b: "i \<le> y \<and> y < x"
            show "\<not> P y"
            proof (cases "y = i")
              case True
              then show ?thesis using \<open>\<not> P i\<close> by simp
            next
              case False
              with b have "i + 1 \<le> y \<and> y < x" by arith
              with a show ?thesis by blast
            qed
          qed
        next
          assume a: "\<forall>y. i \<le> y \<and> y < x \<longrightarrow> \<not> P y"
          show "\<forall>y. i + 1 \<le> y \<and> y < x \<longrightarrow> \<not> P y"
          proof (intro allI impI)
            fix y assume "i + 1 \<le> y \<and> y < x"
            then have "i \<le> y \<and> y < x" by arith
            with a show "\<not> P y" by blast
          qed
        qed
        have p: "P x \<Longrightarrow> i + 1 \<le> x \<longleftrightarrow> i \<le> x"
        proof -
          assume "P x"
          with \<open>\<not> P i\<close> have "x \<noteq> i" by auto
          then show ?thesis by arith
        qed
        show ?thesis unfolding q using p by blast
      qed
      finally show ?thesis .
    qed
  qed
qed

lemma set_py_range: "set (py_range a b) = {a..<b}"
  by (auto simp: py_range_def)

lemma ok_at_iff:
  "ok_at occ r c rspan cspan \<longleftrightarrow> (\<forall>k. in_rect (r, c, rspan, cspan) k \<longrightarrow> \<not> occupied occ k)"
  by (auto simp: ok_at_def list_all_iff set_py_range in_rect_def)

lemma occupied_occupy:
  "occupied (occupy k occ) k' \<longleftrightarrow> occupied occ k' \<or> k' = k"
  by (simp add: occupied_def occupy_def)

lemma occupied_fold_cols:
  "occupied (fold (\<lambda>cc. occupy (rr, cc)) xs m) (a, b) \<longleftrightarrow>
   occupied m (a, b) \<or> (a = rr \<and> b \<in> set xs)"
  by (induction xs arbitrary: m) (auto simp: occupied_occupy)

lemma occupied_fold_rows:
  "occupied (fold (\<lambda>rr. fold (\<lambda>cc. occupy (rr, cc)) xs) ys m0) (a, b) \<longleftrightarrow>
   occupied m0 (a, b) \<or> (a \<in> set ys \<and> b \<in> set xs)"
  by (induction ys arbitrary: m0) (auto simp: occupied_fold_cols)

lemma occupied_mark:
  "occupied (mark occ r c rspan cspan) k \<longleftrightarrow> occupied occ k \<or> in_rect (r, c, rspan, cspan) k"
proof (cases k)
  case (Pair a b)
  show ?thesis unfolding Pair mark_def occupied_fold_rows
    by (auto simp: set_py_range in_rect_def)
qed

lemma scan_row_Some:
  "scan_row occ cols rspan cspan r = Some c \<longleftrightarrow>
     0 \<le> c \<and> c < cols \<and> c + cspan \<le> cols \<and> ok_at occ r c rspan cspan \<and>
     (\<forall>c'. 0 \<le> c' \<and> c' < c \<longrightarrow> \<not> (c' + cspan \<le> cols \<and> ok_at occ r c' rspan cspan))"
  by (auto simp: scan_row_def py_range_def find_upto_Some not_less)

lemma scan_row_None:
  "scan_row occ cols rspan cspan r = None \<longleftrightarrow>
     (\<forall>c. 0 \<le> c \<and> c < cols \<longrightarrow> \<not> (c + cspan \<le> cols \<and> ok_at occ r c rspan cspan))"
  by (auto simp: scan_row_def find_None_iff set_py_range not_less)

lemma first_fit_from_aux:
  assumes "first_fit_from occ cols rspan cspan r0 = Some y"
  shows "r0 \<le> fst (snd y) \<and> scan_row occ cols rspan cspan (fst (snd y)) = Some (snd (snd y)) \<and>
         (\<forall>r'. r0 \<le> r' \<and> r' < fst (snd y) \<longrightarrow> scan_row occ cols rspan cspan r' = None) \<and>
         fst y = mark occ (fst (snd y)) (snd (snd y)) rspan cspan"
proof (rule first_fit_from.raw_induct
    [where P = "\<lambda>occ cols rspan cspan r0 y.
       r0 \<le> fst (snd y) \<and> scan_row occ cols rspan cspan (fst (snd y)) = Some (snd (snd y)) \<and>
       (\<forall>r'. r0 \<le> r' \<and> r' < fst (snd y) \<longrightarrow> scan_row occ cols rspan cspan r' = None) \<and>
       fst y = mark occ (fst (snd y)) (snd (snd y)) rspan cspan", OF _ assms], goal_cases)
  case (1 ff occ cols rspan cspan r y)
  show ?case
  proof (cases "scan_row occ cols rspan cspan r")
    case (Some c)
    with 1(2) show ?thesis by auto
  next
    case None
    with 1(2) have "ff occ cols rspan cspan (r + 1) = Some y" by simp
    from 1(1) [OF this] have
      ih: "r + 1 \<le> fst (snd y)" "scan_row occ cols rspan cspan (fst (snd y)) = Some (snd (snd y))"
        "\<forall>r'. r + 1 \<le> r' \<and> r' < fst (snd y) \<longrightarrow> scan_row occ cols rspan cspan r' = None"
        "fst y = mark occ (fst (snd y)) (snd (snd y)) rspan cspan"
      by blast+
    have "scan_row occ cols rspan cspan r' = None" if "r \<le> r'" "r' < fst (snd y)" for r'
    proof (cases "r' = r")
      case True
      with None show ?thesis by simp
    next
      case False
      with that have "r + 1 \<le> r'" by simp
      with ih(3) that show ?thesis by blast
    qed
    moreover have "r \<le> fst (snd y)" using ih(1) by simp
    ultimately show ?thesis using ih(2,4) by blast
  qed
qed

lemma first_fit_from_Some:
  assumes "first_fit_from occ cols rspan cspan r0 = Some (occ', r, c)"
  shows "r0 \<le> r \<and> scan_row occ cols rspan cspan r = Some c \<and>
         (\<forall>r'. r0 \<le> r' \<and> r' < r \<longrightarrow> scan_row occ cols rspan cspan r' = None) \<and>
         occ' = mark occ r c rspan cspan"
  using first_fit_from_aux [OF assms] by simp

lemma first_fit_from_reaches:
  "scan_row occ cols rspan cspan R = Some c \<Longrightarrow> r0 \<le> R \<Longrightarrow>
   \<exists>res. first_fit_from occ cols rspan cspan r0 = Some res"
proof (induction "nat (R - r0)" arbitrary: r0)
  case 0
  then have "r0 = R" by simp
  with 0 show ?case by (subst first_fit_from.simps) simp
next
  case (Suc n)
  show ?case
  proof (cases "scan_row occ cols rspan cspan r0")
    case (Some c')
    then show ?thesis by (subst first_fit_from.simps) simp
  next
    case None
    from Suc(2) have "n = nat (R - (r0 + 1))" "r0 + 1 \<le> R" by auto
    from Suc(1) [OF this(1) Suc(3) this(2)] None show ?thesis
      by (subst first_fit_from.simps) simp
  qed
qed

lemma rows_bounded_empty: "rows_bounded Map.empty"
  by (simp add: rows_bounded_def occupied_def)

lemma rows_bounded_mark: "rows_bounded occ \<Longrightarrow> rows_bounded (mark occ r c rspan cspan)"
proof -
  assume "rows_bounded occ"
  then obtain R where R: "\<forall>k. occupied occ k \<longrightarrow> fst k < R" by (auto simp: rows_bounded_def)
  have "\<forall>k. occupied (mark occ r c rspan cspan) k \<longrightarrow> fst k < max R (r + rspan)"
    using R by (auto simp: occupied_mark in_rect_def max_def)
  then show ?thesis unfolding rows_bounded_def by blast
qed

lemma first_fit_from_terminates:
  assumes "rows_bounded occ" "1 \<le> cols" "cspan \<le> cols"
  shows "\<exists>occ' r c. first_fit_from occ cols rspan cspan r0 = Some (occ', r, c)"
proof -
  from assms(1) obtain R where R: "\<forall>k. occupied occ k \<longrightarrow> fst k < R" by (auto simp: rows_bounded_def)
  let ?R = "max R r0"
  have "\<not> occupied occ k" if "in_rect (?R, 0, rspan, cspan) k" for k
  proof
    assume "occupied occ k"
    with R have "fst k < R" by blast
    moreover from that have "?R \<le> fst k" by (simp add: in_rect_def)
    ultimately show False by simp
  qed
  then have "ok_at occ ?R 0 rspan cspan"
    unfolding ok_at_iff by blast
  with assms(2,3) have "scan_row occ cols rspan cspan ?R \<noteq> None"
    unfolding scan_row_None by auto
  then obtain c where "scan_row occ cols rspan cspan ?R = Some c" by auto
  from first_fit_from_reaches [OF this, of r0] obtain res where
    "first_fit_from occ cols rspan cspan r0 = Some res" by auto
  then show ?thesis by (cases res) auto
qed

lemma SIZE_MAP_get_spans:
  "SIZE_MAP_get v = Inr (rs, cs) \<Longrightarrow> (rs, cs) = (1, 1) \<or> (rs, cs) = (1, 2) \<or> (rs, cs) = (2, 2)"
  by (cases v) (auto simp: SIZE_MAP_def split: if_splits)

lemma first_fit_row_major:
  assumes ff: "first_fit occ cols rs cs = Some (occ', r, c)" and cs: "1 \<le> cs"
  shows "row_major_first (occupied occ) cols rs cs r c \<and> occ' = mark occ r c rs cs"
proof -
  from ff have s: "0 \<le> r" "scan_row occ cols rs cs r = Some c"
    "\<forall>r'. 0 \<le> r' \<and> r' < r \<longrightarrow> scan_row occ cols rs cs r' = None"
    "occ' = mark occ r c rs cs"
    using first_fit_from_Some [of occ cols rs cs 0 occ' r c] by (simp_all add: first_fit_def)
  from s(2) have c: "0 \<le> c" "c + cs \<le> cols" "ok_at occ r c rs cs"
    and least: "\<forall>c'. 0 \<le> c' \<and> c' < c \<longrightarrow> \<not> (c' + cs \<le> cols \<and> ok_at occ r c' rs cs)"
    unfolding scan_row_Some by blast+
  have adm: "admissible (occupied occ) cols rs cs r c"
    using s(1) c by (simp add: admissible_def ok_at_iff)
  have "r < r' \<or> (r = r' \<and> c \<le> c')"
    if a: "admissible (occupied occ) cols rs cs r' c'" for r' c'
  proof -
    from a have a': "0 \<le> r'" "0 \<le> c'" "c' + cs \<le> cols" "ok_at occ r' c' rs cs"
      by (simp_all add: admissible_def ok_at_iff)
    with cs have lt: "c' < cols" by simp
    have "\<not> r' < r"
    proof
      assume "r' < r"
      with s(3) a'(1) have "scan_row occ cols rs cs r' = None" by blast
      with a' lt show False unfolding scan_row_None by blast
    qed
    moreover have "c \<le> c'" if "r' = r"
    proof (rule ccontr)
      assume "\<not> c \<le> c'"
      then have "c' < c" by simp
      with least a' that show False by blast
    qed
    ultimately show ?thesis by auto
  qed
  with adm s(4) show ?thesis by (simp add: row_major_first_def)
qed

lemma covered_Cons:
  "covered (p # ps) k \<longleftrightarrow> in_rect (snd p) k \<or> covered ps k"
  by (simp add: covered_def)

lemma covered_Nil: "\<not> covered [] k"
  by (simp add: covered_def)

lemma tile_size_set_position: "tile_size (set_position t r c) = tile_size t"
  by (simp add: set_position_def)

lemma pack_loop_positions:
  "pack_loop cols ts h occ pos = Some (h', Inr pos') \<Longrightarrow>
   \<exists>new. pos' = pos @ new \<and> map fst new = ts \<and>
     (\<forall>i<length ts. \<exists>r c rs cs. snd (new ! i) = (r, c, rs, cs) \<and>
        SIZE_MAP_get (tile_size (h (ts ! i))) = Inr (rs, cs) \<and>
        row_major_first (\<lambda>k. occupied occ k \<or> covered (take i new) k) cols rs cs r c)"
proof (induction ts arbitrary: h occ pos)
  case Nil
  then show ?case by simp
next
  case (Cons t ts)
  from Cons.prems obtain rs cs where sz: "SIZE_MAP_get (tile_size (h t)) = Inr (rs, cs)"
    by (auto split: sum.splits)
  from Cons.prems sz obtain occ1 r c where ff: "first_fit occ cols rs cs = Some (occ1, r, c)"
    by (auto split: option.splits)
  let ?h1 = "h(t := set_position (h t) r c)"
  from Cons.prems sz ff have rec:
    "pack_loop cols ts ?h1 occ1 (pos @ [(t, (r, c, rs, cs))]) = Some (h', Inr pos')"
    by simp
  from SIZE_MAP_get_spans [OF sz] have "1 \<le> cs" by auto
  from first_fit_row_major [OF ff this] have
    first: "row_major_first (occupied occ) cols rs cs r c" and occ1: "occ1 = mark occ r c rs cs"
    by simp_all
  from Cons.IH [OF rec] obtain new where new:
    "pos' = (pos @ [(t, (r, c, rs, cs))]) @ new" "map fst new = ts"
    "\<forall>i<length ts. \<exists>r' c' rs' cs'. snd (new ! i) = (r', c', rs', cs') \<and>
        SIZE_MAP_get (tile_size (?h1 (ts ! i))) = Inr (rs', cs') \<and>
        row_major_first (\<lambda>k. occupied occ1 k \<or> covered (take i new) k) cols rs' cs' r' c'"
    by blast
  let ?new = "(t, (r, c, rs, cs)) # new"
  have sizes: "tile_size (?h1 a) = tile_size (h a)" for a
    by (simp add: tile_size_set_position)
  have busy: "(\<lambda>k. occupied occ1 k \<or> covered (take i new) k) =
              (\<lambda>k. occupied occ k \<or> covered (take (Suc i) ?new) k)" for i
    by (rule ext) (auto simp: occ1 occupied_mark covered_Cons)
  have step: "\<exists>r' c' rs' cs'. snd (?new ! i) = (r', c', rs', cs') \<and>
        SIZE_MAP_get (tile_size (h ((t # ts) ! i))) = Inr (rs', cs') \<and>
        row_major_first (\<lambda>k. occupied occ k \<or> covered (take i ?new) k) cols rs' cs' r' c'"
    if i: "i < length (t # ts)" for i
  proof (cases i)
    case 0
    have "(\<lambda>k. occupied occ k \<or> covered (take 0 ?new) k) = occupied occ"
      by (rule ext) (simp add: covered_Nil)
    with first sz show ?thesis unfolding 0 by simp
  next
    case (Suc j)
    with i have j: "j < length ts" by simp
    from new(3) j obtain r' c' rs' cs' where
      "snd (new ! j) = (r', c', rs', cs')"
      "SIZE_MAP_get (tile_size (?h1 (ts ! j))) = Inr (rs', cs')"
      "row_major_first (\<lambda>k. occupied occ1 k \<or> covered (take j new) k) cols rs' cs' r' c'"
      by blast
    then show ?thesis unfolding Suc busy [of j] sizes by simp
  qed
  show ?case
  proof (intro exI [of _ ?new] conjI allI impI)
    show "pos' = pos @ ?new" using new(1) by simp
    show "map fst ?new = t # ts" using new(2) by simp
    fix i assume "i < length (t # ts)"
    then show "\<exists>r' c' rs' cs'. snd (?new ! i) = (r', c', rs', cs') \<and>
        SIZE_MAP_get (tile_size (h ((t # ts) ! i))) = Inr (rs', cs') \<and>
        row_major_first (\<lambda>k. occupied occ k \<or> covered (take i ?new) k) cols rs' cs' r' c'"
      by (rule step)
  qed
qed






lemma pack_loop_returns:
  "rows_bounded occ \<Longrightarrow>
   \<forall>t\<in>set ts. \<exists>rs cs. SIZE_MAP_get (tile_size (h t)) = Inr (rs, cs) \<and> cs \<le> cols \<Longrightarrow>
   \<exists>h' pos'. pack_loop cols ts h occ pos = Some (h', Inr pos')"
proof (induction ts arbitrary: h occ pos)
  case Nil
  then show ?case by simp
next
  case (Cons t ts)
  from Cons.prems(2) obtain rs cs where sz: "SIZE_MAP_get (tile_size (h t)) = Inr (rs, cs)"
    and fit: "cs \<le> cols" by auto
  from SIZE_MAP_get_spans [OF sz] have "1 \<le> cs" by auto
  with fit have "1 \<le> cols" by simp
  from first_fit_from_terminates [OF Cons.prems(1) this fit, of rs 0]
  obtain occ1 r c where ff: "first_fit occ cols rs cs = Some (occ1, r, c)"
    by (auto simp: first_fit_def)
  from first_fit_row_major [OF ff \<open>1 \<le> cs\<close>] have "occ1 = mark occ r c rs cs" by simp
  with Cons.prems(1) have b: "rows_bounded occ1" by (simp add: rows_bounded_mark)
  let ?h1 = "h(t := set_position (h t) r c)"
  have "\<forall>t'\<in>set ts. \<exists>rs cs. SIZE_MAP_get (tile_size (?h1 t')) = Inr (rs, cs) \<and> cs \<le> cols"
    using Cons.prems(2) by (simp add: tile_size_set_position)
  from Cons.IH [OF b this, of "pos @ [(t, (r, c, rs, cs))]"] obtain h' pos' where
    "pack_loop cols ts ?h1 occ1 (pos @ [(t, (r, c, rs, cs))]) = Some (h', Inr pos')"
    by blast
  moreover have "pack_loop cols (t # ts) h occ pos =
      pack_loop cols ts ?h1 occ1 (pos @ [(t, (r, c, rs, cs))])"
    using sz ff by simp
  ultimately have "pack_loop cols (t # ts) h occ pos = Some (h', Inr pos')"
    by (rule ssubst [where P = "\<lambda>x. x = Some (h', Inr pos')", rotated])
  then show ?case by blast
qed

lemma pack_loop_total:
  "rows_bounded occ \<Longrightarrow> 2 \<le> cols \<Longrightarrow> pack_loop cols ts h occ pos \<noteq> None"
proof (induction ts arbitrary: h occ pos)
  case Nil
  then show ?case by simp
next
  case (Cons t ts)
  show ?case
  proof (cases "SIZE_MAP_get (tile_size (h t))")
    case (Inl e)
    then show ?thesis by simp
  next
    case (Inr p)
    obtain rs cs where p: "p = (rs, cs)" by (cases p)
    from Inr p have sz: "SIZE_MAP_get (tile_size (h t)) = Inr (rs, cs)" by simp
    from SIZE_MAP_get_spans [OF sz] have cs: "1 \<le> cs" "cs \<le> 2" by auto
    with Cons.prems(2) have fit: "cs \<le> cols" "1 \<le> cols" by simp_all
    from first_fit_from_terminates [OF Cons.prems(1) fit(2) fit(1), of rs 0]
    obtain occ1 r c where ff: "first_fit occ cols rs cs = Some (occ1, r, c)"
      by (auto simp: first_fit_def)
    from first_fit_row_major [OF ff cs(1)] have "occ1 = mark occ r c rs cs" by simp
    with Cons.prems(1) have b: "rows_bounded occ1" by (simp add: rows_bounded_mark)
    have "pack_loop cols (t # ts) h occ pos =
        pack_loop cols ts (h(t := set_position (h t) r c)) occ1 (pos @ [(t, (r, c, rs, cs))])"
      using sz ff by simp
    then show ?thesis
      by (rule ssubst) (rule Cons.IH [OF b Cons.prems(2)])
  qed
qed

lemma first_fit_from_too_wide:
  "cols < cspan \<Longrightarrow> first_fit_from occ cols rspan cspan r0 = None"
proof (rule ccontr)
  assume w: "cols < cspan" and "first_fit_from occ cols rspan cspan r0 \<noteq> None"
  then obtain occ' r c where "first_fit_from occ cols rspan cspan r0 = Some (occ', r, c)"
    by auto
  from first_fit_from_Some [OF this] have "scan_row occ cols rspan cspan r = Some c" by simp
  then have "0 \<le> c" "c + cspan \<le> cols" unfolding scan_row_Some by blast+
  with w show False by simp
qed

section \<open>Properties of the placements\<close>


lemma pack_tiles_positions:
  assumes "pack_tiles h ts cols = Some (h', Inr pos)"
  shows "map fst pos = ts \<and>
     (\<forall>i<length ts. \<exists>r c rs cs. snd (pos ! i) = (r, c, rs, cs) \<and>
        SIZE_MAP_get (tile_size (h (ts ! i))) = Inr (rs, cs) \<and>
        row_major_first (covered (take i pos)) cols rs cs r c)"
proof -
  from assms have "pack_loop cols ts h Map.empty [] = Some (h', Inr pos)"
    by (simp add: pack_tiles_def)
  from pack_loop_positions [OF this] obtain new where new: "pos = [] @ new" "map fst new = ts"
    "\<forall>i<length ts. \<exists>r c rs cs. snd (new ! i) = (r, c, rs, cs) \<and>
        SIZE_MAP_get (tile_size (h (ts ! i))) = Inr (rs, cs) \<and>
        row_major_first (\<lambda>k. occupied Map.empty k \<or> covered (take i new) k) cols rs cs r c"
    by blast
  have e: "(\<lambda>k. occupied Map.empty k \<or> covered (take i new) k) = covered (take i new)" for i
    by (rule ext) (simp add: occupied_def)
  from new show ?thesis unfolding e by simp
qed

lemma pack_tiles_returns:
  assumes "\<forall>t\<in>set ts. \<exists>rs cs. SIZE_MAP_get (tile_size (h t)) = Inr (rs, cs) \<and> cs \<le> cols"
  shows "\<exists>h' pos. pack_tiles h ts cols = Some (h', Inr pos)"
  unfolding pack_tiles_def by (rule pack_loop_returns [OF rows_bounded_empty assms])

lemma example_sizes_fit:
  "\<forall>t\<in>set [0, 1, 2]. \<exists>rs cs. SIZE_MAP_get (tile_size ((\<lambda>a::nat. (new_Tile (PStr ''t'') (PStr ''T''))\<lparr>tile_size :=
       (if a = 0 then PStr ''wide'' else if a = 1 then PStr ''large'' else PStr ''small'')\<rparr>) t)) = Inr (rs, cs) \<and> cs \<le> 4"
  by (simp add: SIZE_MAP_def new_Tile_def)

lemma example_packing:
  "map_option snd
     (pack_tiles (\<lambda>a. (new_Tile (PStr ''t'') (PStr ''T''))\<lparr>tile_size :=
       (if a = 0 then PStr ''wide'' else if a = 1 then PStr ''large'' else PStr ''small'')\<rparr>) [0, 1, 2] 4)
   = Some (Inr [(0, (0, 0, 1, 2)), (1, (0, 2, 2, 2)), (2, (1, 0, 1, 1))])"
  by (simp add: pack_tiles_def first_fit_def first_fit_from.simps scan_row_def py_range_def
      ok_at_def mark_def occupy_def occupied_def upto.simps SIZE_MAP_def new_Tile_def set_position_def)

lemma example_packing_store:
  "map_option (\<lambda>(h', out). (map (\<lambda>a. (row (h' a), col (h' a))) [0, 1, 2], out))
     (pack_tiles (\<lambda>a. (new_Tile (PStr ''t'') (PStr ''T''))\<lparr>tile_size :=
       (if a = 0 then PStr ''wide'' else if a = 1 then PStr ''large'' else PStr ''small'')\<rparr>) [0, 1, 2] 4)
   = Some ([(PInt 0, PInt 0), (PInt 0, PInt 2), (PInt 1, PInt 0)],
           Inr [(0, (0, 0, 1, 2)), (1, (0, 2, 2, 2)), (2, (1, 0, 1, 1))])"
  by (simp add: pack_tiles_def first_fit_def first_fit_from.simps scan_row_def py_range_def
      ok_at_def mark_def occupy_def occupied_def upto.simps SIZE_MAP_def new_Tile_def set_position_def)

text \<open>
  C8. \<open>_pack_tiles\<close> terminates on every list of tiles whose column spans are all at
  most the column count: it returns the list of positions. Since a span is at most 2,
  with two columns or more it terminates on every list (by returning, or by raising
  when a size is unhashable). The loop of \<open>first_fit\<close> returns a position whenever the
  span is at most the column count, there is a column at all, and the occupied cells
  lie in finitely many rows, as those of a dictionary do.
\<close>

theorem pack_tiles_terminates:
  "((\<forall>t\<in>set ts. \<exists>rs cs. SIZE_MAP_get (tile_size (h t)) = Inr (rs, cs) \<and> cs \<le> cols) \<longrightarrow>
      (\<exists>h' pos. pack_tiles h ts cols = Some (h', Inr pos))) \<and>
   (2 \<le> cols \<longrightarrow> pack_tiles h ts cols \<noteq> None) \<and>
   (rows_bounded occ \<and> 1 \<le> cols \<and> cspan \<le> cols \<longrightarrow>
      (\<exists>occ' r c. first_fit occ cols rspan cspan = Some (occ', r, c)))"
proof (intro conjI impI)
  assume "\<forall>t\<in>set ts. \<exists>rs cs. SIZE_MAP_get (tile_size (h t)) = Inr (rs, cs) \<and> cs \<le> cols"
  then show "\<exists>h' pos. pack_tiles h ts cols = Some (h', Inr pos)" by (rule pack_tiles_returns)
next
  assume "2 \<le> cols"
  with rows_bounded_empty show "pack_tiles h ts cols \<noteq> None"
    unfolding pack_tiles_def by (rule pack_loop_total)
next
  assume "rows_bounded occ \<and> 1 \<le> cols \<and> cspan \<le> cols"
  then show "\<exists>occ' r c. first_fit occ cols rspan cspan = Some (occ', r, c)"
    unfolding first_fit_def using first_fit_from_terminates by blast
qed

theorem pack_tiles_terminates_witness:
  "(\<exists>h' pos. pack_tiles (\<lambda>a. (new_Tile (PStr ''t'') (PStr ''T''))\<lparr>tile_size :=
       (if a = 0 then PStr ''wide'' else if a = 1 then PStr ''large'' else PStr ''small'')\<rparr>) [0, 1, 2] 4
      = Some (h', Inr pos)) \<and>
   pack_tiles (\<lambda>a. (new_Tile (PStr ''t'') (PStr ''T''))\<lparr>tile_size :=
       (if a = 0 then PStr ''wide'' else if a = 1 then PStr ''large'' else PStr ''small'')\<rparr>) [0, 1, 2] 4 \<noteq> None \<and>
   (\<exists>occ' r c. first_fit Map.empty 4 2 2 = Some (occ', r, c))"
proof -
  let ?h = "\<lambda>a::nat. (new_Tile (PStr ''t'') (PStr ''T''))\<lparr>tile_size :=
       (if a = 0 then PStr ''wide'' else if a = 1 then PStr ''large'' else PStr ''small'')\<rparr>"
  note t = pack_tiles_terminates [where h = ?h and ts = "[0, 1, 2]" and cols = 4
      and occ = Map.empty and cspan = 2 and rspan = 2]
  have a: "rows_bounded Map.empty \<and> (1::int) \<le> 4 \<and> (2::int) \<le> 4"
    by (simp add: rows_bounded_empty)
  have b: "(2::int) \<le> 4" by simp
  from t example_sizes_fit a b show ?thesis by blast
qed

text \<open>
  C1, with the precondition it needs: for every list of tiles and every column count
  such that the column span of each tile is at most the column count, \<open>_pack_tiles\<close>
  returns one placement per tile, in list order, with the spans of the tile's size, at
  the row-major first position that keeps the tile inside the columns and off every
  cell covered by the placements before it. Without the precondition there is no such
  position and the packer never returns: a wide tile in one column.
\<close>

theorem pack_tiles_first_fit:
  assumes "\<forall>t\<in>set ts. \<exists>rs cs. SIZE_MAP_get (tile_size (h t)) = Inr (rs, cs) \<and> cs \<le> cols"
  shows "\<exists>h' pos. pack_tiles h ts cols = Some (h', Inr pos) \<and> map fst pos = ts \<and>
     (\<forall>i<length ts. \<exists>r c rs cs. snd (pos ! i) = (r, c, rs, cs) \<and>
        SIZE_MAP_get (tile_size (h (ts ! i))) = Inr (rs, cs) \<and>
        row_major_first (covered (take i pos)) cols rs cs r c)"
proof -
  from pack_tiles_returns [OF assms] obtain h' pos where
    p: "pack_tiles h ts cols = Some (h', Inr pos)" by blast
  from pack_tiles_positions [OF p] p show ?thesis by blast
qed

theorem pack_tiles_first_fit_witness:
  "map_option snd
     (pack_tiles (\<lambda>a. (new_Tile (PStr ''t'') (PStr ''T''))\<lparr>tile_size :=
       (if a = 0 then PStr ''wide'' else if a = 1 then PStr ''large'' else PStr ''small'')\<rparr>) [0, 1, 2] 4)
     = Some (Inr [(0, (0, 0, 1, 2)), (1, (0, 2, 2, 2)), (2, (1, 0, 1, 1))]) \<and>
   row_major_first (covered [(0, (0, 0, 1, 2)), (1, (0, 2, 2, 2))]) 4 1 1 1 0"
proof -
  let ?h = "\<lambda>a::nat. (new_Tile (PStr ''t'') (PStr ''T''))\<lparr>tile_size :=
       (if a = 0 then PStr ''wide'' else if a = 1 then PStr ''large'' else PStr ''small'')\<rparr>"
  from pack_tiles_first_fit [where h = ?h and ts = "[0, 1, 2]" and cols = 4, OF example_sizes_fit]
  obtain h' pos where p: "pack_tiles ?h [0, 1, 2] 4 = Some (h', Inr pos)"
    and ff: "\<forall>i<length [0::nat, 1, 2]. \<exists>r c rs cs. snd (pos ! i) = (r, c, rs, cs) \<and>
        SIZE_MAP_get (tile_size (?h ([0, 1, 2] ! i))) = Inr (rs, cs) \<and>
        row_major_first (covered (take i pos)) 4 rs cs r c"
    by blast
  from p example_packing have pos: "pos = [(0, (0, 0, 1, 2)), (1, (0, 2, 2, 2)), (2, (1, 0, 1, 1))]"
    by simp
  have "(2::nat) < length [0::nat, 1, 2]" by simp
  with ff have "\<exists>r c rs cs. snd (pos ! 2) = (r, c, rs, cs) \<and>
        SIZE_MAP_get (tile_size (?h ([0, 1, 2] ! 2))) = Inr (rs, cs) \<and>
        row_major_first (covered (take 2 pos)) 4 rs cs r c"
    by blast
  then have "\<exists>r c rs cs. snd (pos ! 2) = (r, c, rs, cs) \<and>
        row_major_first (covered (take 2 pos)) 4 rs cs r c"
    by blast
  then have "row_major_first (covered [(0, (0, 0, 1, 2)), (1, (0, 2, 2, 2))]) 4 1 1 1 0"
    unfolding pos by simp
  with example_packing show ?thesis by blast
qed

theorem pack_tiles_first_fit_counterexample:
  "pack_tiles (\<lambda>a. (new_Tile (PStr ''t'') (PStr ''T''))\<lparr>tile_size := PStr ''wide''\<rparr>) [0] 1 = None"
  by (simp add: pack_tiles_def first_fit_def first_fit_from_too_wide SIZE_MAP_def new_Tile_def)



lemma SIZE_MAP_get_listed: "SIZE_MAP_get (PStr s) = Inr (listed_spans s)"
  by (simp add: SIZE_MAP_def listed_spans_def)

lemma tile_pixel_size_listed:
  "tile_size t = PStr s \<Longrightarrow>
   tile_pixel_size t =
     Inr (snd (listed_spans s) * 140 + (snd (listed_spans s) - 1) * 12,
          fst (listed_spans s) * 140 + (fst (listed_spans s) - 1) * 12)"
proof -
  assume a: "tile_size t = PStr s"
  have "SIZE_MAP_get (tile_size t) = Inr (fst (listed_spans s), snd (listed_spans s))"
    unfolding a SIZE_MAP_get_listed by simp
  then show ?thesis
    unfolding tile_pixel_size_def by (simp add: CELL_SIZE_def CELL_GAP_def case_prod_beta)
qed

lemma pack_tiles_spans:
  assumes "pack_tiles h ts cols = Some (h', Inr pos)" "i < length ts" "tile_size (h (ts ! i)) = PStr s"
  shows "\<exists>r c. pos ! i = (ts ! i, (r, c, fst (listed_spans s), snd (listed_spans s)))"
proof -
  from pack_tiles_positions [OF assms(1)] have m: "map fst pos = ts" and
    ff: "\<forall>i<length ts. \<exists>r c rs cs. snd (pos ! i) = (r, c, rs, cs) \<and>
        SIZE_MAP_get (tile_size (h (ts ! i))) = Inr (rs, cs) \<and>
        row_major_first (covered (take i pos)) cols rs cs r c" by blast+
  from ff assms(2) obtain r c rs cs where
    x: "snd (pos ! i) = (r, c, rs, cs)" "SIZE_MAP_get (tile_size (h (ts ! i))) = Inr (rs, cs)"
    by blast
  from x(2) have "Inr (rs, cs) = (Inr (listed_spans s) :: error + int \<times> int)"
    unfolding assms(3) SIZE_MAP_get_listed by (rule sym)
  then have "(rs, cs) = listed_spans s" by (rule Inr_inject)
  then have y: "rs = fst (listed_spans s)" "cs = snd (listed_spans s)" by (metis fst_conv, metis snd_conv)
  from m assms(2) have "fst (pos ! i) = ts ! i" by (metis length_map nth_map)
  with x(1) y have "pos ! i = (ts ! i, (r, c, fst (listed_spans s), snd (listed_spans s)))"
    by (metis prod.collapse)
  then show ?thesis by blast
qed

text \<open>
  C5. The size \<open>"small"\<close> stands for 1 row by 1 column, \<open>"wide"\<close> for 1 row by 2
  columns, \<open>"large"\<close> for 2 rows by 2 columns, and every other string for 1 by 1. The
  size lookup yields these spans, every placement returned by the packer carries them,
  and the pixel size of the button is computed from them: 140 pixels per cell and 12
  per gap between two cells, width first.
\<close>

theorem size_spans:
  "listed_spans ''small'' = (1, 1) \<and> listed_spans ''wide'' = (1, 2) \<and> listed_spans ''large'' = (2, 2) \<and>
   (s \<noteq> ''small'' \<and> s \<noteq> ''wide'' \<and> s \<noteq> ''large'' \<longrightarrow> listed_spans s = (1, 1)) \<and>
   SIZE_MAP_get (PStr s) = Inr (listed_spans s) \<and>
   (pack_tiles h ts cols = Some (h', Inr pos) \<and> i < length ts \<and> tile_size (h (ts ! i)) = PStr s \<longrightarrow>
      (\<exists>r c. pos ! i = (ts ! i, (r, c, fst (listed_spans s), snd (listed_spans s))))) \<and>
   (tile_size t = PStr s \<longrightarrow>
      tile_pixel_size t =
        Inr (snd (listed_spans s) * 140 + (snd (listed_spans s) - 1) * 12,
             fst (listed_spans s) * 140 + (fst (listed_spans s) - 1) * 12)) \<and>
   (tile_size t = PStr ''small'' \<longrightarrow> tile_pixel_size t = Inr (140, 140)) \<and>
   (tile_size t = PStr ''wide'' \<longrightarrow> tile_pixel_size t = Inr (292, 140)) \<and>
   (tile_size t = PStr ''large'' \<longrightarrow> tile_pixel_size t = Inr (292, 292)) \<and>
   (tile_size t = PStr s \<and> s \<noteq> ''small'' \<and> s \<noteq> ''wide'' \<and> s \<noteq> ''large'' \<longrightarrow>
      tile_pixel_size t = Inr (140, 140))"
proof (intro conjI impI)
  show "listed_spans ''small'' = (1, 1)" "listed_spans ''wide'' = (1, 2)" "listed_spans ''large'' = (2, 2)"
    by (simp_all add: listed_spans_def)
  show "SIZE_MAP_get (PStr s) = Inr (listed_spans s)" by (rule SIZE_MAP_get_listed)
next
  assume "s \<noteq> ''small'' \<and> s \<noteq> ''wide'' \<and> s \<noteq> ''large''"
  then show "listed_spans s = (1, 1)" by (simp add: listed_spans_def)
next
  assume "pack_tiles h ts cols = Some (h', Inr pos) \<and> i < length ts \<and> tile_size (h (ts ! i)) = PStr s"
  then show "\<exists>r c. pos ! i = (ts ! i, (r, c, fst (listed_spans s), snd (listed_spans s)))"
    using pack_tiles_spans by blast
next
  assume "tile_size t = PStr s"
  then show "tile_pixel_size t =
        Inr (snd (listed_spans s) * 140 + (snd (listed_spans s) - 1) * 12,
             fst (listed_spans s) * 140 + (fst (listed_spans s) - 1) * 12)"
    by (rule tile_pixel_size_listed)
next
  assume "tile_size t = PStr ''small''"
  from tile_pixel_size_listed [OF this] show "tile_pixel_size t = Inr (140, 140)"
    by (simp add: listed_spans_def)
next
  assume "tile_size t = PStr ''wide''"
  from tile_pixel_size_listed [OF this] show "tile_pixel_size t = Inr (292, 140)"
    by (simp add: listed_spans_def)
next
  assume "tile_size t = PStr ''large''"
  from tile_pixel_size_listed [OF this] show "tile_pixel_size t = Inr (292, 292)"
    by (simp add: listed_spans_def)
next
  assume a: "tile_size t = PStr s \<and> s \<noteq> ''small'' \<and> s \<noteq> ''wide'' \<and> s \<noteq> ''large''"
  then have "tile_size t = PStr s" by simp
  from tile_pixel_size_listed [OF this] a show "tile_pixel_size t = Inr (140, 140)"
    by (simp add: listed_spans_def)
qed

theorem size_spans_witness:
  "tile_pixel_size ((new_Tile (PStr ''t'') (PStr ''T''))\<lparr>tile_size := PStr ''wide''\<rparr>) = Inr (292, 140) \<and>
   tile_pixel_size ((new_Tile (PStr ''t'') (PStr ''T''))\<lparr>tile_size := PStr ''huge''\<rparr>) = Inr (140, 140) \<and>
   listed_spans ''huge'' = (1, 1) \<and>
   (\<exists>h' pos r c. pack_tiles (\<lambda>a. (new_Tile (PStr ''t'') (PStr ''T''))\<lparr>tile_size :=
       (if a = 0 then PStr ''wide'' else if a = 1 then PStr ''large'' else PStr ''small'')\<rparr>) [0, 1, 2] 4
        = Some (h', Inr pos) \<and> pos ! 1 = (1, (r, c, 2, 2)))"
proof -
  let ?h = "\<lambda>a::nat. (new_Tile (PStr ''t'') (PStr ''T''))\<lparr>tile_size :=
       (if a = 0 then PStr ''wide'' else if a = 1 then PStr ''large'' else PStr ''small'')\<rparr>"
  let ?w = "(new_Tile (PStr ''t'') (PStr ''T''))\<lparr>tile_size := PStr ''wide''\<rparr>"
  let ?g = "(new_Tile (PStr ''t'') (PStr ''T''))\<lparr>tile_size := PStr ''huge''\<rparr>"
  from example_packing obtain h' pos where p: "pack_tiles ?h [0, 1, 2] 4 = Some (h', Inr pos)"
    by auto
  note t1 = size_spans [where t = ?w and s = "''large''" and h = ?h and ts = "[0, 1, 2]" and cols = 4
      and h' = h' and pos = pos and i = 1]
  note t2 = size_spans [where t = ?g and s = "''huge''" and h = ?h and ts = "[0, 1, 2]" and cols = 4
      and h' = h' and pos = pos and i = 1]
  have w: "tile_size ?w = PStr ''wide''" by simp
  have g: "tile_size ?g = PStr ''huge'' \<and> ''huge'' \<noteq> ''small'' \<and> ''huge'' \<noteq> ''wide'' \<and> ''huge'' \<noteq> ''large''"
    by simp
  have i: "(1::nat) < length [0::nat, 1, 2] \<and> tile_size (?h ([0, 1, 2] ! 1)) = PStr ''large''"
    by simp
  from t1 w have a: "tile_pixel_size ?w = Inr (292, 140)" by blast
  from t2 g have b: "tile_pixel_size ?g = Inr (140, 140)" "listed_spans ''huge'' = (1, 1)" by blast+
  from t1 p i have "\<exists>r c. pos ! 1 = ([0, 1, 2] ! 1, (r, c, fst (listed_spans ''large''), snd (listed_spans ''large'')))"
    by blast
  moreover from t1 have "listed_spans ''large'' = (2, 2)" by blast
  ultimately have "\<exists>r c. pos ! 1 = (1, (r, c, 2, 2))" by simp
  with a b p show ?thesis by blast
qed






section \<open>Properties of the column count\<close>

lemma setValue_range:
  "minimum (setValue v b) = minimum b \<and> maximum (setValue v b) = maximum b"
  by (simp add: setValue_def)

lemma setValue_in_range:
  "minimum b \<le> maximum b \<Longrightarrow>
   minimum b \<le> spin_value (setValue v b) \<and> spin_value (setValue v b) \<le> maximum b"
  by (simp add: setValue_def)

lemma fold_setValue_in_range:
  "minimum b = 2 \<Longrightarrow> maximum b = 8 \<Longrightarrow> 2 \<le> spin_value b \<Longrightarrow> spin_value b \<le> 8 \<Longrightarrow>
   2 \<le> spin_value (fold setValue vs b) \<and> spin_value (fold setValue vs b) \<le> 8"
proof (induction vs arbitrary: b)
  case Nil
  then show ?case by simp
next
  case (Cons v vs)
  have "minimum (setValue v b) = 2" "maximum (setValue v b) = 8"
    using Cons.prems by (simp_all add: setValue_def)
  moreover have "2 \<le> spin_value (setValue v b)" "spin_value (setValue v b) \<le> 8"
    using Cons.prems by (simp_all add: setValue_def)
  ultimately show ?case
    using Cons.IH [of "setValue v b"] by simp
qed

lemma col_spin_in_range:
  "2 \<le> spin_value (fold setValue vs (setValue n (setRange 2 8 QSpinBox))) \<and>
   spin_value (fold setValue vs (setValue n (setRange 2 8 QSpinBox))) \<le> 8"
  by (rule fold_setValue_in_range) (simp_all add: setValue_def setRange_def QSpinBox_def)

lemma rebuild_returns:
  assumes "columns s = PInt k" "2 \<le> k"
  shows "\<exists>h' out. rebuild tk h s = Some (h', out)"
proof (cases "tiles s")
  case None
  then show ?thesis by (simp add: rebuild_def)
next
  case (Some ts)
  have "pack_tiles h ts k \<noteq> None"
    unfolding pack_tiles_def using rows_bounded_empty assms(2) by (rule pack_loop_total)
  then obtain h' r where p: "pack_tiles h ts k = Some (h', r)" by (cases "pack_tiles h ts k") auto
  show ?thesis
    by (cases r) (simp_all add: rebuild_def Some assms(1) p)
qed

lemma change_columns_int:
  "\<exists>h' out. change_columns tk h (s\<lparr>columns := PInt c\<rparr>) delta =
     Some (s\<lparr>columns := PInt (max 2 (min 8 (c + delta)))\<rparr>, h', out)"
proof -
  let ?s' = "s\<lparr>columns := PInt (max 2 (min 8 (c + delta)))\<rparr>"
  have "columns ?s' = PInt (max 2 (min 8 (c + delta)))" "2 \<le> max 2 (min 8 (c + delta))" by simp_all
  from rebuild_returns [OF this] obtain h' out where "rebuild tk h ?s' = Some (h', out)" by blast
  then show ?thesis by (simp add: change_columns_def)
qed

lemma example_change_columns:
  "map_option (\<lambda>(s', h', out). (s', map (\<lambda>a. (row (h' a), col (h' a))) [0, 1, 2], out))
     (change_columns \<lparr>setCurrentText = (\<lambda>v. None), add_button = (\<lambda>t. None)\<rparr>
        (\<lambda>a. (new_Tile (PStr ''t'') (PStr ''T''))\<lparr>tile_size :=
           (if a = 0 then PStr ''wide'' else if a = 1 then PStr ''large'' else PStr ''small'')\<rparr>)
        \<lparr>theme = PStr ''dark'', columns = PInt 11, tiles = Some [0, 1, 2]\<rparr> 1)
   = Some (\<lparr>theme = PStr ''dark'', columns = PInt 8, tiles = Some [0, 1, 2]\<rparr>,
           [(PInt 0, PInt 0), (PInt 0, PInt 2), (PInt 0, PInt 4)], None)"
  by (simp add: change_columns_def rebuild_def pack_tiles_def first_fit_def first_fit_from.simps
      scan_row_def py_range_def ok_at_def mark_def occupy_def occupied_def upto.simps SIZE_MAP_def
      new_Tile_def set_position_def)

lemma example_open_settings:
  "map_option (\<lambda>(s', h', out). (s', map (\<lambda>a. (row (h' a), col (h' a))) [0, 1, 2], out))
     (open_settings \<lparr>setCurrentText = (\<lambda>v. None), add_button = (\<lambda>t. None)\<rparr>
        (\<lambda>a. (new_Tile (PStr ''t'') (PStr ''T''))\<lparr>tile_size :=
           (if a = 0 then PStr ''wide'' else if a = 1 then PStr ''large'' else PStr ''small'')\<rparr>)
        \<lparr>theme = PStr ''dark'', columns = PInt 11, tiles = Some [0, 1, 2]\<rparr>
        \<lparr>picked_theme = ''light'', typed_columns = [12, 1], accepted = True\<rparr>)
   = Some (\<lparr>theme = PStr ''light'', columns = PInt 2, tiles = Some [0, 1, 2]\<rparr>,
           [(PInt 0, PInt 0), (PInt 1, PInt 0), (PInt 3, PInt 0)], None)"
  by (simp add: open_settings_def rebuild_def pack_tiles_def first_fit_def first_fit_from.simps
      scan_row_def py_range_def ok_at_def mark_def occupy_def occupied_def upto.simps SIZE_MAP_def
      new_Tile_def set_position_def setValue_def setRange_def QSpinBox_def)

text \<open>
  C9. Whatever integer the column count starts from (in range or not) and whatever the
  delta, \<open>_change_columns\<close> terminates and leaves an integer column count between 2 and
  8, whether \<open>rebuild\<close> returns or raises; from an arbitrary state it either leaves
  such a column count, or raises \<open>TypeError\<close> at the addition and leaves everything as
  it was. \<open>_open_settings\<close> terminates too, and it either leaves the state as it was
  (the dialog was cancelled, or a widget call raised before it was shown) or has set
  the column count to an integer between 2 and 8.
\<close>

theorem change_columns_range:
  "(\<exists>k h' out. change_columns tk h (s\<lparr>columns := PInt c\<rparr>) delta = Some (s\<lparr>columns := PInt k\<rparr>, h', out) \<and>
      2 \<le> k \<and> k \<le> 8) \<and>
   (\<forall>s' h' out. change_columns tk h s delta = Some (s', h', out) \<longrightarrow>
      (s' = s \<and> h' = h \<and> out = Some TypeError) \<or> (\<exists>k. columns s' = PInt k \<and> 2 \<le> k \<and> k \<le> 8)) \<and>
   (\<forall>s' h' out. open_settings tk h s ui = Some (s', h', out) \<longrightarrow>
      (s' = s \<and> h' = h \<and> (\<not> accepted ui \<or> out \<noteq> None)) \<or>
      (accepted ui \<and> (\<exists>k. columns s' = PInt k \<and> 2 \<le> k \<and> k \<le> 8))) \<and>
   open_settings tk h s ui \<noteq> None"
proof (intro conjI allI impI)
  from change_columns_int [where tk = tk and h = h and s = s and c = c and delta = delta]
  show "\<exists>k h' out. change_columns tk h (s\<lparr>columns := PInt c\<rparr>) delta = Some (s\<lparr>columns := PInt k\<rparr>, h', out) \<and>
      2 \<le> k \<and> k \<le> 8"
    by (meson max.cobounded1 max.boundedI min.cobounded1 order.refl numeral_le_iff semiring_norm)
next
  fix s' h' out assume a: "change_columns tk h s delta = Some (s', h', out)"
  show "(s' = s \<and> h' = h \<and> out = Some TypeError) \<or> (\<exists>k. columns s' = PInt k \<and> 2 \<le> k \<and> k \<le> 8)"
  proof (cases "py_add_int (columns s) delta")
    case (Inl e)
    then have "e = TypeError" by (cases "columns s") simp_all
    with a Inl show ?thesis by (auto simp: change_columns_def)
  next
    case (Inr n)
    with a have "s' = s\<lparr>columns := PInt (max 2 (min 8 n))\<rparr>"
      by (auto simp: change_columns_def Let_def)
    then show ?thesis by simp
  qed
next
  fix s' h' out assume a: "open_settings tk h s ui = Some (s', h', out)"
  show "(s' = s \<and> h' = h \<and> (\<not> accepted ui \<or> out \<noteq> None)) \<or>
      (accepted ui \<and> (\<exists>k. columns s' = PInt k \<and> 2 \<le> k \<and> k \<le> 8))"
  proof (cases "setCurrentText tk (theme s)")
    case (Some e)
    with a show ?thesis by (auto simp: open_settings_def)
  next
    case None
    show ?thesis
    proof (cases "as_c_int (columns s)")
      case (Inl e)
      with a None show ?thesis by (auto simp: open_settings_def)
    next
      case (Inr n)
      show ?thesis
      proof (cases "accepted ui")
        case False
        with a None Inr show ?thesis by (auto simp: open_settings_def Let_def)
      next
        case True
        with a None Inr have
          "s' = s\<lparr>theme := PStr (picked_theme ui),
                 columns := PInt (spin_value (fold setValue (typed_columns ui) (setValue n (setRange 2 8 QSpinBox))))\<rparr>"
          by (auto simp: open_settings_def Let_def)
        then show ?thesis
          using True col_spin_in_range [of "typed_columns ui" n] by simp
      qed
    qed
  qed
next
  show "open_settings tk h s ui \<noteq> None"
  proof (cases "setCurrentText tk (theme s)")
    case (Some e)
    then show ?thesis by (simp add: open_settings_def)
  next
    case None
    note n = None
    show ?thesis
    proof (cases "as_c_int (columns s)")
      case (Inl e)
      with n show ?thesis by (simp add: open_settings_def)
    next
      case (Inr n')
      show ?thesis
      proof (cases "accepted ui")
        case False
        with n Inr show ?thesis by (simp add: open_settings_def Let_def)
      next
        case True
        let ?k = "spin_value (fold setValue (typed_columns ui) (setValue n' (setRange 2 8 QSpinBox)))"
        let ?s' = "s\<lparr>theme := PStr (picked_theme ui), columns := PInt ?k\<rparr>"
        have "columns ?s' = PInt ?k" by simp
        moreover have "2 \<le> ?k" using col_spin_in_range [of "typed_columns ui" n'] by simp
        ultimately obtain h' out where "rebuild tk h ?s' = Some (h', out)"
          using rebuild_returns by blast
        with n Inr True show ?thesis by (simp add: open_settings_def Let_def)
      qed
    qed
  qed
qed

theorem change_columns_range_witness:
  "map_option (\<lambda>(s', h', out). (s', map (\<lambda>a. (row (h' a), col (h' a))) [0, 1, 2], out))
     (change_columns \<lparr>setCurrentText = (\<lambda>v. None), add_button = (\<lambda>t. None)\<rparr>
        (\<lambda>a. (new_Tile (PStr ''t'') (PStr ''T''))\<lparr>tile_size :=
           (if a = 0 then PStr ''wide'' else if a = 1 then PStr ''large'' else PStr ''small'')\<rparr>)
        \<lparr>theme = PStr ''dark'', columns = PInt 11, tiles = Some [0, 1, 2]\<rparr> 1)
     = Some (\<lparr>theme = PStr ''dark'', columns = PInt 8, tiles = Some [0, 1, 2]\<rparr>,
           [(PInt 0, PInt 0), (PInt 0, PInt 2), (PInt 0, PInt 4)], None) \<and>
   map_option (\<lambda>(s', h', out). (s', map (\<lambda>a. (row (h' a), col (h' a))) [0, 1, 2], out))
     (open_settings \<lparr>setCurrentText = (\<lambda>v. None), add_button = (\<lambda>t. None)\<rparr>
        (\<lambda>a. (new_Tile (PStr ''t'') (PStr ''T''))\<lparr>tile_size :=
           (if a = 0 then PStr ''wide'' else if a = 1 then PStr ''large'' else PStr ''small'')\<rparr>)
        \<lparr>theme = PStr ''dark'', columns = PInt 11, tiles = Some [0, 1, 2]\<rparr>
        \<lparr>picked_theme = ''light'', typed_columns = [12, 1], accepted = True\<rparr>)
     = Some (\<lparr>theme = PStr ''light'', columns = PInt 2, tiles = Some [0, 1, 2]\<rparr>,
           [(PInt 0, PInt 0), (PInt 1, PInt 0), (PInt 3, PInt 0)], None) \<and>
   (\<exists>k. columns \<lparr>theme = PStr ''dark'', columns = PInt 8, tiles = Some [0::nat, 1, 2]\<rparr> = PInt k
        \<and> 2 \<le> k \<and> k \<le> 8) \<and>
   (\<exists>k. columns \<lparr>theme = PStr ''light'', columns = PInt 2, tiles = Some [0::nat, 1, 2]\<rparr> = PInt k
        \<and> 2 \<le> k \<and> k \<le> 8)"
proof -
  let ?tk = "\<lparr>setCurrentText = (\<lambda>v. None), add_button = (\<lambda>t. None)\<rparr>"
  let ?h = "\<lambda>a::nat. (new_Tile (PStr ''t'') (PStr ''T''))\<lparr>tile_size :=
       (if a = 0 then PStr ''wide'' else if a = 1 then PStr ''large'' else PStr ''small'')\<rparr>"
  let ?s = "\<lparr>theme = PStr ''dark'', columns = PInt 11, tiles = Some [0::nat, 1, 2]\<rparr>"
  let ?s8 = "\<lparr>theme = PStr ''dark'', columns = PInt 8, tiles = Some [0::nat, 1, 2]\<rparr>"
  let ?s2 = "\<lparr>theme = PStr ''light'', columns = PInt 2, tiles = Some [0::nat, 1, 2]\<rparr>"
  let ?ui = "\<lparr>picked_theme = ''light'', typed_columns = [12, 1], accepted = True\<rparr>"
  note t = change_columns_range [where tk = ?tk and h = ?h and s = ?s and c = 11 and delta = 1 and ui = ?ui]
  from example_change_columns obtain h1 where c: "change_columns ?tk ?h ?s 1 = Some (?s8, h1, None)"
    by auto
  from example_open_settings obtain h2 where s: "open_settings ?tk ?h ?s ?ui = Some (?s2, h2, None)"
    by auto
  from t c have "(?s8 = ?s \<and> h1 = ?h \<and> None = Some TypeError) \<or>
      (\<exists>k. columns ?s8 = PInt k \<and> 2 \<le> k \<and> k \<le> 8)"
    by blast
  then have r1: "\<exists>k. columns ?s8 = PInt k \<and> 2 \<le> k \<and> k \<le> 8" by blast
  from t s have "(?s2 = ?s \<and> h2 = ?h \<and> (\<not> accepted ?ui \<or> (None :: error option) \<noteq> None)) \<or>
      (accepted ?ui \<and> (\<exists>k. columns ?s2 = PInt k \<and> 2 \<le> k \<and> k \<le> 8))"
    by blast
  then have r2: "\<exists>k. columns ?s2 = PInt k \<and> 2 \<le> k \<and> k \<le> 8" by blast
  from example_change_columns example_open_settings r1 r2 show ?thesis by blast
qed

section \<open>Properties of reordering\<close>

lemma index_from_None:
  "index_from h v ts n = None \<longleftrightarrow> (\<forall>u\<in>set ts. \<not> py_eq (tile_id (h u)) v)"
  by (induction ts arbitrary: n) simp_all

lemma index_from_Some:
  "index_from h v ts n = Some m \<longleftrightarrow>
     (\<exists>i. m = n + i \<and> i < length ts \<and> py_eq (tile_id (h (ts ! i))) v \<and>
          (\<forall>k<i. \<not> py_eq (tile_id (h (ts ! k))) v))"
proof (induction ts arbitrary: n)
  case Nil
  then show ?case by simp
next
  case (Cons t ts)
  show ?case
  proof (cases "py_eq (tile_id (h t)) v")
    case True
    have "(\<exists>i. m = n + i \<and> i < length (t # ts) \<and> py_eq (tile_id (h ((t # ts) ! i))) v \<and>
          (\<forall>k<i. \<not> py_eq (tile_id (h ((t # ts) ! k))) v)) \<longleftrightarrow> m = n"
    proof
      assume "\<exists>i. m = n + i \<and> i < length (t # ts) \<and> py_eq (tile_id (h ((t # ts) ! i))) v \<and>
          (\<forall>k<i. \<not> py_eq (tile_id (h ((t # ts) ! k))) v)"
      then obtain i where i: "m = n + i" "\<forall>k<i. \<not> py_eq (tile_id (h ((t # ts) ! k))) v" by blast
      have "i = 0"
      proof (rule ccontr)
        assume "i \<noteq> 0"
        then have "0 < i" by simp
        with i(2) have "\<not> py_eq (tile_id (h ((t # ts) ! 0))) v" by blast
        with True show False by simp
      qed
      with i(1) show "m = n" by simp
    next
      assume "m = n"
      with True show "\<exists>i. m = n + i \<and> i < length (t # ts) \<and> py_eq (tile_id (h ((t # ts) ! i))) v \<and>
          (\<forall>k<i. \<not> py_eq (tile_id (h ((t # ts) ! k))) v)"
        by (intro exI [of _ 0]) simp
    qed
    with True show ?thesis by auto
  next
    case False
    have "(\<exists>i. m = n + i \<and> i < length (t # ts) \<and> py_eq (tile_id (h ((t # ts) ! i))) v \<and>
          (\<forall>k<i. \<not> py_eq (tile_id (h ((t # ts) ! k))) v)) \<longleftrightarrow>
       (\<exists>i. m = Suc n + i \<and> i < length ts \<and> py_eq (tile_id (h (ts ! i))) v \<and>
          (\<forall>k<i. \<not> py_eq (tile_id (h (ts ! k))) v))"
    proof
      assume "\<exists>i. m = n + i \<and> i < length (t # ts) \<and> py_eq (tile_id (h ((t # ts) ! i))) v \<and>
          (\<forall>k<i. \<not> py_eq (tile_id (h ((t # ts) ! k))) v)"
      then obtain i where i: "m = n + i" "i < length (t # ts)" "py_eq (tile_id (h ((t # ts) ! i))) v"
          "\<forall>k<i. \<not> py_eq (tile_id (h ((t # ts) ! k))) v" by blast
      from i(3) False obtain i' where i': "i = Suc i'" by (cases i) auto
      have "\<forall>k<i'. \<not> py_eq (tile_id (h (ts ! k))) v"
      proof (intro allI impI)
        fix k assume "k < i'"
        then have "Suc k < i" by (simp add: i')
        with i(4) have "\<not> py_eq (tile_id (h ((t # ts) ! Suc k))) v" by blast
        then show "\<not> py_eq (tile_id (h (ts ! k))) v" by simp
      qed
      with i i' show "\<exists>i. m = Suc n + i \<and> i < length ts \<and> py_eq (tile_id (h (ts ! i))) v \<and>
          (\<forall>k<i. \<not> py_eq (tile_id (h (ts ! k))) v)"
        by (intro exI [of _ i']) simp
    next
      assume "\<exists>i. m = Suc n + i \<and> i < length ts \<and> py_eq (tile_id (h (ts ! i))) v \<and>
          (\<forall>k<i. \<not> py_eq (tile_id (h (ts ! k))) v)"
      then obtain i where i: "m = Suc n + i" "i < length ts" "py_eq (tile_id (h (ts ! i))) v"
          "\<forall>k<i. \<not> py_eq (tile_id (h (ts ! k))) v" by blast
      have "\<forall>k<Suc i. \<not> py_eq (tile_id (h ((t # ts) ! k))) v"
      proof (intro allI impI)
        fix k assume k: "k < Suc i"
        show "\<not> py_eq (tile_id (h ((t # ts) ! k))) v"
        proof (cases k)
          case 0
          with False show ?thesis by simp
        next
          case (Suc k')
          with k i(4) show ?thesis by simp
        qed
      qed
      with i show "\<exists>i. m = n + i \<and> i < length (t # ts) \<and> py_eq (tile_id (h ((t # ts) ! i))) v \<and>
          (\<forall>k<i. \<not> py_eq (tile_id (h ((t # ts) ! k))) v)"
        by (intro exI [of _ "Suc i"]) simp
    qed
    with False Cons.IH [of "Suc n"] show ?thesis by simp
  qed
qed

lemma index_of_None:
  "index_of h ts t = None \<longleftrightarrow> (\<forall>u\<in>set ts. \<not> py_eq (tile_id (h u)) (tile_id (h t)))"
  unfolding index_of_def by (rule index_from_None)

lemma index_of_Some:
  "index_of h ts t = Some i \<longleftrightarrow>
     (i < length ts \<and> py_eq (tile_id (h (ts ! i))) (tile_id (h t)) \<and>
      (\<forall>k<i. \<not> py_eq (tile_id (h (ts ! k))) (tile_id (h t))))"
  unfolding index_of_def index_from_Some by simp

lemma index_of_first: "index_of h ts t = Some i \<longleftrightarrow> first_with_id h ts (tile_id (h t)) i"
  unfolding first_with_id_def by (rule index_of_Some)

lemma clamped_target_less: "i < n \<Longrightarrow> clamped_target n i delta < n"
  by (auto simp: clamped_target_def)

lemma clamped_target_int:
  "i < n \<Longrightarrow> int (clamped_target n i delta) = max 0 (min (int n - 1) (int i + delta))"
  by (simp add: clamped_target_def)

lemma same_state: "tiles s = Some ts \<Longrightarrow> s\<lparr>tiles := Some ts\<rparr> = s"
  by (cases s) simp

lemma move_tile_absent:
  assumes "tiles s = Some ts" "\<forall>u\<in>set ts. \<not> py_eq (tile_id (h u)) (tile_id (h t))"
  shows "move_tile tk h s t delta = Some (s, h, None)"
proof -
  from assms(2) have "index_of h ts t = None" by (simp add: index_of_None)
  with assms(1) show ?thesis by (simp add: move_tile_def)
qed

lemma move_tile_stay:
  assumes "tiles s = Some ts" "first_with_id h ts (tile_id (h t)) i"
    "clamped_target (length ts) i delta = i"
  shows "move_tile tk h s t delta = Some (s, h, None)"
proof -
  from assms(2) have i: "index_of h ts t = Some i" "i < length ts"
    by (simp_all add: index_of_first) (simp add: first_with_id_def)
  from clamped_target_int [OF i(2), of delta] assms(3)
  have "max 0 (min (int (length ts) - 1) (int i + delta)) = int i" by simp
  with assms(1) i(1) show ?thesis by (simp add: move_tile_def Let_def)
qed

lemma move_tile_go:
  assumes "tiles s = Some ts" "first_with_id h ts (tile_id (h t)) i"
    "clamped_target (length ts) i delta \<noteq> i"
  shows "move_tile tk h s t delta =
     map_option (Pair (s\<lparr>tiles := Some (ts[i := ts ! clamped_target (length ts) i delta,
                                          clamped_target (length ts) i delta := ts ! i])\<rparr>))
       (rebuild tk h (s\<lparr>tiles := Some (ts[i := ts ! clamped_target (length ts) i delta,
                                          clamped_target (length ts) i delta := ts ! i])\<rparr>))"
proof -
  from assms(2) have i: "index_of h ts t = Some i" "i < length ts"
    by (simp_all add: index_of_first) (simp add: first_with_id_def)
  from clamped_target_int [OF i(2), of delta] assms(3)
  have "max 0 (min (int (length ts) - 1) (int i + delta)) \<noteq> int i" by linarith
  with assms(1) i(1) show ?thesis
    by (simp add: move_tile_def Let_def clamped_target_def)
qed

lemma swap_same: "xs[i := xs ! i, i := xs ! i] = xs"
  by simp

lemma example_move_b:
  "map_option (\<lambda>(s', h', out). (s', out))
     (move_tile \<lparr>setCurrentText = (\<lambda>v. None), add_button = (\<lambda>t. None)\<rparr>
        (\<lambda>a. new_Tile (PStr (if a = 0 then ''a'' else if a = 1 then ''b'' else if a = 2 then ''c'' else ''z''))
               (PStr ''T''))
        \<lparr>theme = PStr ''dark'', columns = PInt 4, tiles = Some [0, 1, 2]\<rparr> 1 1)
   = Some (\<lparr>theme = PStr ''dark'', columns = PInt 4, tiles = Some [0, 2, 1]\<rparr>, None)"
  by (simp add: move_tile_def index_of_def rebuild_def pack_tiles_def first_fit_def
      first_fit_from.simps scan_row_def py_range_def ok_at_def mark_def occupy_def occupied_def
      upto.simps SIZE_MAP_def new_Tile_def set_position_def)

text \<open>
  C10, with the index that the code uses. \<open>move_tile\<close> finds the tile by its \<open>id\<close>: the
  index \<open>i\<close> is that of the first tile of the list whose \<open>id\<close> equals the \<open>id\<close> of the
  given tile, which is the given tile when no tile before it has an equal \<open>id\<close>.
  Whenever \<open>move_tile\<close> returns or raises, the list is a permutation of the list before,
  of the same length, the rest of the state is as before, and the list is the list
  before with the items at \<open>i\<close> and at \<open>i + delta\<close> clamped to the valid indices
  exchanged. When the clamped index is \<open>i\<close> itself, and when no tile of the list has
  the \<open>id\<close>, nothing changes and \<open>rebuild\<close> does not run. With an integer column count
  of at least 2 \<open>move_tile\<close> terminates.
\<close>

theorem move_tile_swaps:
  "tiles s = Some ts \<longrightarrow>
     (\<forall>s' h' out. move_tile tk h s t delta = Some (s', h', out) \<longrightarrow>
        (\<exists>ts'. s' = s\<lparr>tiles := Some ts'\<rparr> \<and> mset ts' = mset ts \<and> length ts' = length ts \<and>
           ((\<forall>u\<in>set ts. \<not> py_eq (tile_id (h u)) (tile_id (h t))) \<longrightarrow> ts' = ts) \<and>
           (\<forall>i. first_with_id h ts (tile_id (h t)) i \<longrightarrow>
              clamped_target (length ts) i delta < length ts \<and>
              ts' = ts[i := ts ! clamped_target (length ts) i delta,
                       clamped_target (length ts) i delta := ts ! i]))) \<and>
     ((\<forall>u\<in>set ts. \<not> py_eq (tile_id (h u)) (tile_id (h t))) \<longrightarrow>
        move_tile tk h s t delta = Some (s, h, None)) \<and>
     (\<forall>i. first_with_id h ts (tile_id (h t)) i \<and> clamped_target (length ts) i delta = i \<longrightarrow>
        move_tile tk h s t delta = Some (s, h, None)) \<and>
     (\<forall>i. i < length ts \<and> ts ! i = t \<and> py_eq (tile_id (h t)) (tile_id (h t)) \<and>
          (\<forall>k<i. \<not> py_eq (tile_id (h (ts ! k))) (tile_id (h t))) \<longrightarrow>
        first_with_id h ts (tile_id (h t)) i) \<and>
     ((\<exists>k. columns s = PInt k \<and> 2 \<le> k) \<longrightarrow> move_tile tk h s t delta \<noteq> None)"
proof (intro impI conjI allI)
  fix s' h' out
  assume s: "tiles s = Some ts" and m: "move_tile tk h s t delta = Some (s', h', out)"
  show "\<exists>ts'. s' = s\<lparr>tiles := Some ts'\<rparr> \<and> mset ts' = mset ts \<and> length ts' = length ts \<and>
           ((\<forall>u\<in>set ts. \<not> py_eq (tile_id (h u)) (tile_id (h t))) \<longrightarrow> ts' = ts) \<and>
           (\<forall>i. first_with_id h ts (tile_id (h t)) i \<longrightarrow>
              clamped_target (length ts) i delta < length ts \<and>
              ts' = ts[i := ts ! clamped_target (length ts) i delta,
                       clamped_target (length ts) i delta := ts ! i])"
  proof (cases "index_of h ts t")
    case None
    then have ab: "\<forall>u\<in>set ts. \<not> py_eq (tile_id (h u)) (tile_id (h t))" by (simp add: index_of_None)
    from move_tile_absent [OF s ab] m have "s' = s" by simp
    with s have e: "s' = s\<lparr>tiles := Some ts\<rparr>" by (simp add: same_state)
    have no: "\<not> first_with_id h ts (tile_id (h t)) i" for i
      using None by (simp add: index_of_first [symmetric])
    show ?thesis
      by (rule exI [of _ ts]) (simp add: e no)
  next
    case (Some i0)
    then have f: "first_with_id h ts (tile_id (h t)) i0" by (simp add: index_of_first)
    then have i0: "i0 < length ts" by (simp add: first_with_id_def)
    let ?j = "clamped_target (length ts) i0 delta"
    have j: "?j < length ts" using i0 by (rule clamped_target_less)
    have uniq: "i = i0" if "first_with_id h ts (tile_id (h t)) i" for i
      using that Some by (simp add: index_of_first [symmetric])
    have ex: "\<not> (\<forall>u\<in>set ts. \<not> py_eq (tile_id (h u)) (tile_id (h t)))"
      using Some by (simp add: index_of_None [symmetric])
    let ?ts' = "ts[i0 := ts ! ?j, ?j := ts ! i0]"
    have p: "mset ?ts' = mset ts" "length ?ts' = length ts"
      using i0 j by (simp_all add: mset_swap)
    have e: "s' = s\<lparr>tiles := Some ?ts'\<rparr>"
    proof (cases "?j = i0")
      case True
      from move_tile_stay [OF s f True] m have "s' = s" by simp
      with s True show ?thesis by (simp add: same_state)
    next
      case False
      from move_tile_go [OF s f False] m show ?thesis by auto
    qed
    show ?thesis
    proof (intro exI [of _ ?ts'] conjI allI impI)
      show "s' = s\<lparr>tiles := Some ?ts'\<rparr>" by (rule e)
      show "mset ?ts' = mset ts" "length ?ts' = length ts" by (rule p)+
    next
      assume "\<forall>u\<in>set ts. \<not> py_eq (tile_id (h u)) (tile_id (h t))"
      with ex show "?ts' = ts" by simp
    next
      fix i assume "first_with_id h ts (tile_id (h t)) i"
      then have "i = i0" by (rule uniq)
      then show "clamped_target (length ts) i delta < length ts" using j by simp
    next
      fix i assume "first_with_id h ts (tile_id (h t)) i"
      then have "i = i0" by (rule uniq)
      then show "?ts' = ts[i := ts ! clamped_target (length ts) i delta,
                       clamped_target (length ts) i delta := ts ! i]" by simp
    qed
  qed
next
  assume "tiles s = Some ts" "\<forall>u\<in>set ts. \<not> py_eq (tile_id (h u)) (tile_id (h t))"
  then show "move_tile tk h s t delta = Some (s, h, None)" by (rule move_tile_absent)
next
  fix i
  assume s: "tiles s = Some ts"
    and "first_with_id h ts (tile_id (h t)) i \<and> clamped_target (length ts) i delta = i"
  then have "first_with_id h ts (tile_id (h t)) i" "clamped_target (length ts) i delta = i"
    by simp_all
  with s show "move_tile tk h s t delta = Some (s, h, None)" by (rule move_tile_stay)
next
  fix i
  assume "i < length ts \<and> ts ! i = t \<and> py_eq (tile_id (h t)) (tile_id (h t)) \<and>
          (\<forall>k<i. \<not> py_eq (tile_id (h (ts ! k))) (tile_id (h t)))"
  then show "first_with_id h ts (tile_id (h t)) i" by (simp add: first_with_id_def)
next
  assume s: "tiles s = Some ts" and "\<exists>k. columns s = PInt k \<and> 2 \<le> k"
  then obtain k where k: "columns s = PInt k" "2 \<le> k" by blast
  show "move_tile tk h s t delta \<noteq> None"
  proof (cases "index_of h ts t")
    case None
    with s show ?thesis by (simp add: move_tile_def)
  next
    case (Some i)
    then have f: "first_with_id h ts (tile_id (h t)) i" by (simp add: index_of_first)
    show ?thesis
    proof (cases "clamped_target (length ts) i delta = i")
      case True
      from move_tile_stay [OF s f True] show ?thesis by simp
    next
      case False
      let ?s' = "s\<lparr>tiles := Some (ts[i := ts ! clamped_target (length ts) i delta,
                                          clamped_target (length ts) i delta := ts ! i])\<rparr>"
      have "columns ?s' = PInt k" using k(1) by simp
      from rebuild_returns [OF this k(2)] obtain h' out where "rebuild tk h ?s' = Some (h', out)"
        by blast
      with move_tile_go [OF s f False] show ?thesis by simp
    qed
  qed
qed

theorem move_tile_swaps_witness:
  "map_option (\<lambda>(s', h', out). (s', out))
     (move_tile \<lparr>setCurrentText = (\<lambda>v. None), add_button = (\<lambda>t. None)\<rparr>
        (\<lambda>a. new_Tile (PStr (if a = 0 then ''a'' else if a = 1 then ''b'' else if a = 2 then ''c'' else ''z''))
               (PStr ''T''))
        \<lparr>theme = PStr ''dark'', columns = PInt 4, tiles = Some [0, 1, 2]\<rparr> 1 1)
     = Some (\<lparr>theme = PStr ''dark'', columns = PInt 4, tiles = Some [0, 2, 1]\<rparr>, None) \<and>
   mset [0::nat, 2, 1] = mset [0, 1, 2] \<and>
   [0::nat, 2, 1] = [0, 1, 2][1 := [0, 1, 2] ! 2, 2 := [0, 1, 2] ! 1] \<and>
   move_tile \<lparr>setCurrentText = (\<lambda>v. None), add_button = (\<lambda>t. None)\<rparr>
        (\<lambda>a. new_Tile (PStr (if a = 0 then ''a'' else if a = 1 then ''b'' else if a = 2 then ''c'' else ''z''))
               (PStr ''T''))
        \<lparr>theme = PStr ''dark'', columns = PInt 4, tiles = Some [0, 1, 2]\<rparr> 2 1
     = Some (\<lparr>theme = PStr ''dark'', columns = PInt 4, tiles = Some [0, 1, 2]\<rparr>,
             (\<lambda>a. new_Tile (PStr (if a = 0 then ''a'' else if a = 1 then ''b'' else if a = 2 then ''c'' else ''z''))
               (PStr ''T'')), None) \<and>
   move_tile \<lparr>setCurrentText = (\<lambda>v. None), add_button = (\<lambda>t. None)\<rparr>
        (\<lambda>a. new_Tile (PStr (if a = 0 then ''a'' else if a = 1 then ''b'' else if a = 2 then ''c'' else ''z''))
               (PStr ''T''))
        \<lparr>theme = PStr ''dark'', columns = PInt 4, tiles = Some [0, 1, 2]\<rparr> 7 1
     = Some (\<lparr>theme = PStr ''dark'', columns = PInt 4, tiles = Some [0, 1, 2]\<rparr>,
             (\<lambda>a. new_Tile (PStr (if a = 0 then ''a'' else if a = 1 then ''b'' else if a = 2 then ''c'' else ''z''))
               (PStr ''T'')), None)"
proof -
  let ?tk = "\<lparr>setCurrentText = (\<lambda>v. None), add_button = (\<lambda>t. None)\<rparr>"
  let ?h = "\<lambda>a::nat. new_Tile (PStr (if a = 0 then ''a'' else if a = 1 then ''b'' else if a = 2 then ''c'' else ''z''))
               (PStr ''T'')"
  let ?s = "\<lparr>theme = PStr ''dark'', columns = PInt 4, tiles = Some [0::nat, 1, 2]\<rparr>"
  let ?s1 = "\<lparr>theme = PStr ''dark'', columns = PInt 4, tiles = Some [0::nat, 2, 1]\<rparr>"
  have s: "tiles ?s = Some [0, 1, 2]" by simp
  note t1 = move_tile_swaps [where s = ?s and ts = "[0, 1, 2]" and tk = ?tk and h = ?h and t = 1
      and delta = 1, THEN mp, OF s]
  note t2 = move_tile_swaps [where s = ?s and ts = "[0, 1, 2]" and tk = ?tk and h = ?h and t = 2
      and delta = 1, THEN mp, OF s]
  note t7 = move_tile_swaps [where s = ?s and ts = "[0, 1, 2]" and tk = ?tk and h = ?h and t = 7
      and delta = 1, THEN mp, OF s]
  from example_move_b obtain h1 where m: "move_tile ?tk ?h ?s 1 1 = Some (?s1, h1, None)"
    by auto
  from t1 [THEN conjunct1, rule_format, OF m] obtain ts' where
    r: "mset ts' = mset [0::nat, 1, 2]"
       "\<forall>i. first_with_id ?h [0, 1, 2] (tile_id (?h 1)) i \<longrightarrow>
          clamped_target (length [0::nat, 1, 2]) i 1 < length [0::nat, 1, 2] \<and>
          ts' = [0, 1, 2][i := [0, 1, 2] ! clamped_target (length [0::nat, 1, 2]) i 1,
                          clamped_target (length [0::nat, 1, 2]) i 1 := [0, 1, 2] ! i]"
    by blast
  have f1: "first_with_id ?h [0, 1, 2] (tile_id (?h 1)) 1"
    by (simp add: first_with_id_def new_Tile_def)
  with r(2) have "ts' = [0, 1, 2][1 := [0, 1, 2] ! clamped_target (length [0::nat, 1, 2]) 1 1,
                          clamped_target (length [0::nat, 1, 2]) 1 1 := [0, 1, 2] ! 1]"
    by blast
  then have ts': "ts' = [0, 2, 1]" by (simp add: clamped_target_def)
  from r(1) have a: "mset [0::nat, 2, 1] = mset [0, 1, 2]" unfolding ts' .
  have b: "[0::nat, 2, 1] = [0, 1, 2][1 := [0, 1, 2] ! 2, 2 := [0, 1, 2] ! 1]" by simp
  have "first_with_id ?h [0, 1, 2] (tile_id (?h 2)) 2 \<and> clamped_target (length [0::nat, 1, 2]) 2 1 = 2"
    by (simp add: first_with_id_def new_Tile_def clamped_target_def less_Suc_eq numeral_2_eq_2)
  with t2 have c: "move_tile ?tk ?h ?s 2 1 = Some (?s, ?h, None)" by blast
  have "\<forall>u\<in>set [0::nat, 1, 2]. \<not> py_eq (tile_id (?h u)) (tile_id (?h 7))"
    by (simp add: new_Tile_def)
  with t7 have d: "move_tile ?tk ?h ?s 7 1 = Some (?s, ?h, None)" by blast
  from example_move_b a b c d show ?thesis by blast
qed

theorem move_tile_swaps_counterexample:
  "map_option (\<lambda>(s', h', out). (s', out))
     (move_tile \<lparr>setCurrentText = (\<lambda>v. None), add_button = (\<lambda>t. None)\<rparr>
        (\<lambda>a. new_Tile (PStr (if a = 0 then ''x'' else if a = 1 then ''x'' else ''y'')) (PStr ''T''))
        \<lparr>theme = PStr ''dark'', columns = PInt 4, tiles = Some [0, 1, 2]\<rparr> 1 1)
   = Some (\<lparr>theme = PStr ''dark'', columns = PInt 4, tiles = Some [1, 0, 2]\<rparr>, None) \<and>
   [0::nat, 1, 2] ! 1 = 1 \<and>
   nat (max 0 (min (int (length [0::nat, 1, 2]) - 1) (int 1 + 1))) = 2 \<and>
   [0::nat, 1, 2][1 := [0, 1, 2] ! 2, 2 := [0, 1, 2] ! 1] = [0, 2, 1]"
  by (simp add: move_tile_def index_of_def rebuild_def pack_tiles_def first_fit_def
      first_fit_from.simps scan_row_def py_range_def ok_at_def mark_def occupy_def occupied_def
      upto.simps SIZE_MAP_def new_Tile_def set_position_def)

section \<open>Properties of loading and saving\<close>

lemma Tile_init_asdict: "Tile_init (asdict t) = Inr t"
  by (simp add: asdict_def Tile_fields_def item_or_def)

lemma Tile_list_asdict: "Tile_list (map asdict ts) = Inr ts"
  by (induction ts) (simp_all add: Tile_init_asdict)

lemma load_returns: "\<exists>s. load ev f p = Inr s"
  by (cases "load_body f p") (simp_all add: load_def)

lemma load_body_dict:
  assumes "file_at f p = Some (Json (PDict kvs))" "readable f p"
  shows "load_body f p =
     (case py_iter (item_or kvs ''tiles'' (PList [])) of
        Inl e \<Rightarrow> Inl e
      | Inr vs \<Rightarrow>
          (case Tile_list vs of
             Inl e \<Rightarrow> Inl e
           | Inr ts \<Rightarrow>
               Inr \<lparr>theme = item_or kvs ''theme'' (PStr ''dark''),
                    columns = item_or kvs ''columns'' (PInt 4), tiles = Some ts\<rparr>))"
  using assms by (simp add: load_body_def read_json_def DEFAULT_COLUMNS_def split: sum.splits)

lemma load_body_not_dict:
  assumes "file_at f p = Some (Json data)" "\<forall>kvs. data \<noteq> PDict kvs"
  shows "\<exists>e. load_body f p = Inl e"
  using assms by (cases data) (simp_all add: load_body_def read_json_def)

lemma save_load:
  assumes "tiles s = Some ts" "save f p s = (f', None)" "readable f' p"
  shows "load ev f' p = Inr s"
proof -
  from assms(2) have f': "file_at f' p = Some (Json (payload s))"
    by (auto simp: save_def Let_def split: if_splits)
  have te: "tiles_or_empty s = ts" using assms(1) by (simp add: tiles_or_empty_def)
  have "load_body f' p = Inr \<lparr>theme = theme s, columns = columns s, tiles = Some ts\<rparr>"
    using f' assms(3)
    by (simp add: load_body_def read_json_def payload_def te item_or_def Tile_list_asdict)
  moreover have "\<lparr>theme = theme s, columns = columns s, tiles = Some ts\<rparr> = s"
    using assms(1) by (cases s) simp
  ultimately show ?thesis using f' by (simp add: load_def)
qed

lemma load_body_unreadable:
  "file_at f p \<noteq> None \<Longrightarrow> \<not> readable f p \<Longrightarrow> load_body f p = Inl OSError"
  by (auto simp: load_body_def read_json_def)

lemma load_body_malformed:
  "file_at f p = Some Malformed \<Longrightarrow> readable f p \<Longrightarrow> load_body f p = Inl JSONDecodeError"
  by (simp add: load_body_def read_json_def)

lemma load_body_no_dict:
  assumes "file_at f p = Some (Json data)" "readable f p" "\<forall>kvs. data \<noteq> PDict kvs"
  shows "load_body f p = Inl AttributeError"
  using assms by (cases data) (simp_all add: load_body_def read_json_def)

lemma load_built:
  assumes "file_at f p = Some (Json (PDict kvs))" "readable f p"
    "py_iter (item_or kvs ''tiles'' (PList [])) = Inr vs" "Tile_list vs = Inr ts"
  shows "load ev f p =
     Inr \<lparr>theme = item_or kvs ''theme'' (PStr ''dark''),
          columns = item_or kvs ''columns'' (PInt 4), tiles = Some ts\<rparr>"
  using assms(1,3,4) by (simp add: load_def load_body_dict [OF assms(1,2)])

lemma load_dichotomy:
  "load ev f p = Inr (default_state ev) \<or>
   (\<exists>kvs vs ts. file_at f p = Some (Json (PDict kvs)) \<and> readable f p \<and>
      py_iter (item_or kvs ''tiles'' (PList [])) = Inr vs \<and> Tile_list vs = Inr ts \<and>
      load ev f p =
        Inr \<lparr>theme = item_or kvs ''theme'' (PStr ''dark''),
             columns = item_or kvs ''columns'' (PInt 4), tiles = Some ts\<rparr>)"
proof (cases "load_body f p")
  case (Inl e)
  then show ?thesis by (simp add: load_def)
next
  case (Inr s)
  show ?thesis
  proof (cases "file_at f p")
    case None
    then show ?thesis by (simp add: load_def)
  next
    case (Some d)
    have r: "readable f p"
    proof (rule ccontr)
      assume "\<not> readable f p"
      with Some load_body_unreadable [of f p] Inr show False by simp
    qed
    from Some r Inr obtain data where d: "d = Json data"
      by (cases d) (simp_all add: load_body_malformed)
    from Some r Inr d obtain kvs where k: "data = PDict kvs"
      using load_body_no_dict [of f p data] by (metis Inl_Inr_False)
    note b = load_body_dict [OF Some [unfolded d k] r]
    from Inr b obtain vs where vs: "py_iter (item_or kvs ''tiles'' (PList [])) = Inr vs"
      by (cases "py_iter (item_or kvs ''tiles'' (PList []))") simp_all
    from Inr b vs obtain ts where ts: "Tile_list vs = Inr ts"
      by (cases "Tile_list vs") simp_all
    from load_built [OF Some [unfolded d k] r vs ts] Some d k r vs ts show ?thesis by blast
  qed
qed

lemma default_state_facts:
  "theme (default_state ev) = PStr ''dark'' \<and> columns (default_state ev) = PInt 4 \<and>
   (\<exists>ts. tiles (default_state ev) = Some ts \<and> length ts = 5 \<and>
      map tile_id ts = [PStr ''tile_browser'', PStr ''tile_docs'', PStr ''tile_cmd'',
                        PStr ''tile_clock'', PStr ''tile_settings''] \<and>
      map tile_size ts = [PStr ''wide'', PStr ''small'', PStr ''small'', PStr ''large'', PStr ''small''] \<and>
      map title ts = [PStr ''Browser'', PStr ''Documents'', PStr ''Notepad'', PStr ''Clock'',
                      PStr ''Settings''] \<and>
      map color ts = [PStr ''#0078D7'', PStr ''#107C10'', PStr ''#D83B01'', PStr ''#5C2D91'',
                      PStr ''#FFB900''] \<and>
      map action_type ts = [PStr ''url'', PStr ''file'', PStr ''command'', PStr ''builtin'',
                            PStr ''builtin''] \<and>
      map action_value ts =
        [PStr ''https://www.example.com'', PStr (home ev),
         PStr (if startswith (platform ev) ''win'' then ''notepad''
               else if platform ev = ''darwin'' then ''open -a TextEdit'' else ''gedit''),
         PStr ''clock'', PStr ''settings''] \<and>
      (\<forall>t\<in>set ts. icon_path t = PNone \<and> row t = PInt 0 \<and> col t = PInt 0))"
  by (simp add: default_state_def DEFAULT_COLUMNS_def)

lemma save_ok:
  "writable f p \<Longrightarrow> \<not> disk_full f \<Longrightarrow>
   save f p s = (f\<lparr>file_at := (file_at f)(p \<mapsto> Json (payload s))\<rparr>, None)"
  by (simp add: save_def)

lemma save_None:
  "save f p s = (f', None) \<Longrightarrow> f' = f\<lparr>file_at := (file_at f)(p \<mapsto> Json (payload s))\<rparr>"
  by (auto simp: save_def Let_def split: if_splits)

text \<open>
  C2. \<open>load\<close> raises nothing: it always returns a state. It returns the default state
  (theme \<open>"dark"\<close>, 4 columns, the five built-in tiles) when the file does not exist and
  when the body of its \<open>try\<close> statement raises, which it does when the file cannot be
  opened, when its text does not parse, when the parsed value is no dictionary, when
  the value under \<open>"tiles"\<close> cannot be iterated, and when an element of it is not
  accepted by the constructor of \<open>Tile\<close>. Otherwise it returns the state built from the
  parsed dictionary, with \<open>"dark"\<close>, 4 and the empty list in the place of a missing
  \<open>"theme"\<close>, \<open>"columns"\<close> and \<open>"tiles"\<close>. There is no third case.
\<close>

theorem load_never_raises:
  "(\<exists>s. load ev f p = Inr s) \<and>
   (file_at f p = None \<longrightarrow> load ev f p = Inr (default_state ev)) \<and>
   ((\<exists>e. load_body f p = Inl e) \<longrightarrow> load ev f p = Inr (default_state ev)) \<and>
   (file_at f p \<noteq> None \<and> \<not> readable f p \<longrightarrow> load_body f p = Inl OSError) \<and>
   (file_at f p = Some Malformed \<and> readable f p \<longrightarrow> load_body f p = Inl JSONDecodeError) \<and>
   (\<forall>data. file_at f p = Some (Json data) \<and> readable f p \<and> (\<forall>kvs. data \<noteq> PDict kvs) \<longrightarrow>
      load_body f p = Inl AttributeError) \<and>
   (\<forall>kvs e. file_at f p = Some (Json (PDict kvs)) \<and> readable f p \<and>
      py_iter (item_or kvs ''tiles'' (PList [])) = Inl e \<longrightarrow> load_body f p = Inl e) \<and>
   (\<forall>kvs vs e. file_at f p = Some (Json (PDict kvs)) \<and> readable f p \<and>
      py_iter (item_or kvs ''tiles'' (PList [])) = Inr vs \<and> Tile_list vs = Inl e \<longrightarrow>
      load_body f p = Inl e) \<and>
   (\<forall>kvs vs ts. file_at f p = Some (Json (PDict kvs)) \<and> readable f p \<and>
      py_iter (item_or kvs ''tiles'' (PList [])) = Inr vs \<and> Tile_list vs = Inr ts \<longrightarrow>
      load ev f p =
        Inr \<lparr>theme = item_or kvs ''theme'' (PStr ''dark''),
             columns = item_or kvs ''columns'' (PInt 4), tiles = Some ts\<rparr>) \<and>
   (file_at f p = Some (Json (PDict [])) \<and> readable f p \<longrightarrow>
      load ev f p = Inr \<lparr>theme = PStr ''dark'', columns = PInt 4, tiles = Some []\<rparr>) \<and>
   (load ev f p = Inr (default_state ev) \<or>
    (\<exists>kvs vs ts. file_at f p = Some (Json (PDict kvs)) \<and> readable f p \<and>
       py_iter (item_or kvs ''tiles'' (PList [])) = Inr vs \<and> Tile_list vs = Inr ts \<and>
       load ev f p =
         Inr \<lparr>theme = item_or kvs ''theme'' (PStr ''dark''),
              columns = item_or kvs ''columns'' (PInt 4), tiles = Some ts\<rparr>)) \<and>
   theme (default_state ev) = PStr ''dark'' \<and> columns (default_state ev) = PInt 4 \<and>
   (\<exists>ts. tiles (default_state ev) = Some ts \<and> length ts = 5 \<and>
      map tile_id ts = [PStr ''tile_browser'', PStr ''tile_docs'', PStr ''tile_cmd'',
                        PStr ''tile_clock'', PStr ''tile_settings''] \<and>
      map tile_size ts = [PStr ''wide'', PStr ''small'', PStr ''small'', PStr ''large'', PStr ''small''] \<and>
      map title ts = [PStr ''Browser'', PStr ''Documents'', PStr ''Notepad'', PStr ''Clock'',
                      PStr ''Settings''] \<and>
      map color ts = [PStr ''#0078D7'', PStr ''#107C10'', PStr ''#D83B01'', PStr ''#5C2D91'',
                      PStr ''#FFB900''] \<and>
      map action_type ts = [PStr ''url'', PStr ''file'', PStr ''command'', PStr ''builtin'',
                            PStr ''builtin''] \<and>
      map action_value ts =
        [PStr ''https://www.example.com'', PStr (home ev),
         PStr (if startswith (platform ev) ''win'' then ''notepad''
               else if platform ev = ''darwin'' then ''open -a TextEdit'' else ''gedit''),
         PStr ''clock'', PStr ''settings''] \<and>
      (\<forall>t\<in>set ts. icon_path t = PNone \<and> row t = PInt 0 \<and> col t = PInt 0))"
proof (intro conjI impI allI)
  show "\<exists>s. load ev f p = Inr s" by (rule load_returns)
next
  assume "file_at f p = None"
  then show "load ev f p = Inr (default_state ev)" by (simp add: load_def)
next
  assume "\<exists>e. load_body f p = Inl e"
  then show "load ev f p = Inr (default_state ev)" by (auto simp: load_def)
next
  assume "file_at f p \<noteq> None \<and> \<not> readable f p"
  then show "load_body f p = Inl OSError" by (simp add: load_body_unreadable)
next
  assume "file_at f p = Some Malformed \<and> readable f p"
  then show "load_body f p = Inl JSONDecodeError" by (simp add: load_body_malformed)
next
  fix data assume "file_at f p = Some (Json data) \<and> readable f p \<and> (\<forall>kvs. data \<noteq> PDict kvs)"
  then show "load_body f p = Inl AttributeError" by (simp add: load_body_no_dict)
next
  fix kvs e
  assume a: "file_at f p = Some (Json (PDict kvs)) \<and> readable f p \<and>
      py_iter (item_or kvs ''tiles'' (PList [])) = Inl e"
  then have "file_at f p = Some (Json (PDict kvs))" "readable f p" by simp_all
  from load_body_dict [OF this] a show "load_body f p = Inl e" by simp
next
  fix kvs vs e
  assume a: "file_at f p = Some (Json (PDict kvs)) \<and> readable f p \<and>
      py_iter (item_or kvs ''tiles'' (PList [])) = Inr vs \<and> Tile_list vs = Inl e"
  then have "file_at f p = Some (Json (PDict kvs))" "readable f p" by simp_all
  from load_body_dict [OF this] a show "load_body f p = Inl e" by simp
next
  fix kvs vs ts
  assume a: "file_at f p = Some (Json (PDict kvs)) \<and> readable f p \<and>
      py_iter (item_or kvs ''tiles'' (PList [])) = Inr vs \<and> Tile_list vs = Inr ts"
  then show "load ev f p =
        Inr \<lparr>theme = item_or kvs ''theme'' (PStr ''dark''),
             columns = item_or kvs ''columns'' (PInt 4), tiles = Some ts\<rparr>"
    using load_built by blast
next
  assume a: "file_at f p = Some (Json (PDict [])) \<and> readable f p"
  have "py_iter (item_or [] ''tiles'' (PList [])) = Inr []" "Tile_list [] = Inr []"
    by (simp_all add: item_or_def)
  with a load_built [of f p "[]" "[]" "[]" ev]
  show "load ev f p = Inr \<lparr>theme = PStr ''dark'', columns = PInt 4, tiles = Some []\<rparr>"
    by (simp add: item_or_def)
next
  show "load ev f p = Inr (default_state ev) \<or>
    (\<exists>kvs vs ts. file_at f p = Some (Json (PDict kvs)) \<and> readable f p \<and>
       py_iter (item_or kvs ''tiles'' (PList [])) = Inr vs \<and> Tile_list vs = Inr ts \<and>
       load ev f p =
         Inr \<lparr>theme = item_or kvs ''theme'' (PStr ''dark''),
              columns = item_or kvs ''columns'' (PInt 4), tiles = Some ts\<rparr>)"
    by (rule load_dichotomy)
next
  from default_state_facts [of ev] show "theme (default_state ev) = PStr ''dark''"
    by (rule conjunct1)
next
  from default_state_facts [of ev] show "columns (default_state ev) = PInt 4"
    by (rule conjunct2 [THEN conjunct1])
next
  from default_state_facts [of ev] show
    "\<exists>ts. tiles (default_state ev) = Some ts \<and> length ts = 5 \<and>
      map tile_id ts = [PStr ''tile_browser'', PStr ''tile_docs'', PStr ''tile_cmd'',
                        PStr ''tile_clock'', PStr ''tile_settings''] \<and>
      map tile_size ts = [PStr ''wide'', PStr ''small'', PStr ''small'', PStr ''large'', PStr ''small''] \<and>
      map title ts = [PStr ''Browser'', PStr ''Documents'', PStr ''Notepad'', PStr ''Clock'',
                      PStr ''Settings''] \<and>
      map color ts = [PStr ''#0078D7'', PStr ''#107C10'', PStr ''#D83B01'', PStr ''#5C2D91'',
                      PStr ''#FFB900''] \<and>
      map action_type ts = [PStr ''url'', PStr ''file'', PStr ''command'', PStr ''builtin'',
                            PStr ''builtin''] \<and>
      map action_value ts =
        [PStr ''https://www.example.com'', PStr (home ev),
         PStr (if startswith (platform ev) ''win'' then ''notepad''
               else if platform ev = ''darwin'' then ''open -a TextEdit'' else ''gedit''),
         PStr ''clock'', PStr ''settings''] \<and>
      (\<forall>t\<in>set ts. icon_path t = PNone \<and> row t = PInt 0 \<and> col t = PInt 0)"
    by (rule conjunct2 [THEN conjunct2])
qed

theorem load_never_raises_witness:
  "load \<lparr>platform = ''linux'', home = ''/home/u''\<rparr>
     \<lparr>file_at = (\<lambda>q. if q = ''cfg'' then Some (Json (PDict [(''columns'', PInt 6),
                      (''tiles'', PList [PDict [(''id'', PStr ''a''), (''title'', PStr ''A'')]])]))
                    else if q = ''bad'' then Some Malformed else None),
      readable = (\<lambda>q. True), writable = (\<lambda>q. True), disk_full = False\<rparr> ''cfg''
     = Inr \<lparr>theme = PStr ''dark'', columns = PInt 6,
            tiles = Some [new_Tile (PStr ''a'') (PStr ''A'')]\<rparr> \<and>
   load \<lparr>platform = ''linux'', home = ''/home/u''\<rparr>
     \<lparr>file_at = (\<lambda>q. if q = ''cfg'' then Some (Json (PDict [(''columns'', PInt 6),
                      (''tiles'', PList [PDict [(''id'', PStr ''a''), (''title'', PStr ''A'')]])]))
                    else if q = ''bad'' then Some Malformed else None),
      readable = (\<lambda>q. True), writable = (\<lambda>q. True), disk_full = False\<rparr> ''bad''
     = Inr (default_state \<lparr>platform = ''linux'', home = ''/home/u''\<rparr>) \<and>
   load \<lparr>platform = ''linux'', home = ''/home/u''\<rparr>
     \<lparr>file_at = (\<lambda>q. if q = ''cfg'' then Some (Json (PDict [(''columns'', PInt 6),
                      (''tiles'', PList [PDict [(''id'', PStr ''a''), (''title'', PStr ''A'')]])]))
                    else if q = ''bad'' then Some Malformed else None),
      readable = (\<lambda>q. True), writable = (\<lambda>q. True), disk_full = False\<rparr> ''none''
     = Inr (default_state \<lparr>platform = ''linux'', home = ''/home/u''\<rparr>)"
proof -
  let ?ev = "\<lparr>platform = ''linux'', home = ''/home/u''\<rparr>"
  let ?kvs = "[(''columns'', PInt 6),
               (''tiles'', PList [PDict [(''id'', PStr ''a''), (''title'', PStr ''A'')]])]"
  let ?f = "\<lparr>file_at = (\<lambda>q. if q = ''cfg'' then Some (Json (PDict ?kvs))
                    else if q = ''bad'' then Some Malformed else None),
      readable = (\<lambda>q. True), writable = (\<lambda>q. True), disk_full = False\<rparr>"
  note c = load_never_raises [where ev = ?ev and f = ?f and p = "''cfg''"]
  note b = load_never_raises [where ev = ?ev and f = ?f and p = "''bad''"]
  note n = load_never_raises [where ev = ?ev and f = ?f and p = "''none''"]
  have "file_at ?f ''cfg'' = Some (Json (PDict ?kvs)) \<and> readable ?f ''cfg'' \<and>
      py_iter (item_or ?kvs ''tiles'' (PList []))
        = Inr [PDict [(''id'', PStr ''a''), (''title'', PStr ''A'')]] \<and>
      Tile_list [PDict [(''id'', PStr ''a''), (''title'', PStr ''A'')]]
        = Inr [new_Tile (PStr ''a'') (PStr ''A'')]"
    by (simp add: item_or_def Tile_fields_def new_Tile_def)
  then have "load ?ev ?f ''cfg'' =
        Inr \<lparr>theme = item_or ?kvs ''theme'' (PStr ''dark''),
             columns = item_or ?kvs ''columns'' (PInt 4),
             tiles = Some [new_Tile (PStr ''a'') (PStr ''A'')]\<rparr>"
    by (rule c [THEN conjunct2, THEN conjunct2, THEN conjunct2, THEN conjunct2, THEN conjunct2, THEN conjunct2, THEN conjunct2, THEN conjunct2, THEN conjunct1, rule_format])
  then have 1: "load ?ev ?f ''cfg'' = Inr \<lparr>theme = PStr ''dark'', columns = PInt 6,
            tiles = Some [new_Tile (PStr ''a'') (PStr ''A'')]\<rparr>"
    by (simp add: item_or_def)
  have "file_at ?f ''bad'' = Some Malformed \<and> readable ?f ''bad''" by simp
  then have "load_body ?f ''bad'' = Inl JSONDecodeError"
    by (rule b [THEN conjunct2, THEN conjunct2, THEN conjunct2, THEN conjunct2, THEN conjunct1, rule_format])
  then have "\<exists>e. load_body ?f ''bad'' = Inl e" by (rule exI)
  then have 2: "load ?ev ?f ''bad'' = Inr (default_state ?ev)"
    by (rule b [THEN conjunct2, THEN conjunct2, THEN conjunct1, rule_format])
  have "file_at ?f ''none'' = None" by simp
  then have 3: "load ?ev ?f ''none'' = Inr (default_state ?ev)"
    by (rule n [THEN conjunct2, THEN conjunct1, rule_format])
  from 1 2 3 show ?thesis by (intro conjI)
qed

text \<open>
  C6. When \<open>save\<close> returns, the file holds a JSON object with exactly the three keys
  \<open>"theme"\<close>, \<open>"columns"\<close> and \<open>"tiles"\<close>: the theme and the column count of the state as
  they are, and the list, in order, of the dictionaries of the tiles, each with all nine
  fields of the dataclass; the list is empty when the \<open>tiles\<close> field is \<open>None\<close>. It
  returns whenever the file can be opened for writing and the write succeeds; otherwise
  it raises \<open>OSError\<close> and the file holds no JSON object written by it. No other file
  is touched.
\<close>

theorem save_writes_payload:
  "(writable f p \<and> \<not> disk_full f \<longrightarrow>
      save f p s =
        (f\<lparr>file_at := (file_at f)(p \<mapsto> Json (PDict [(''theme'', theme s), (''columns'', columns s),
               (''tiles'', PList (map asdict (tiles_or_empty s)))]))\<rparr>, None)) \<and>
   (\<forall>f'. save f p s = (f', None) \<longrightarrow>
      file_at f' p = Some (Json (PDict [(''theme'', theme s), (''columns'', columns s),
               (''tiles'', PList (map asdict (tiles_or_empty s)))]))) \<and>
   (\<forall>f' out q. save f p s = (f', out) \<and> q \<noteq> p \<longrightarrow> file_at f' q = file_at f q) \<and>
   (tiles s = None \<longrightarrow> tiles_or_empty s = []) \<and>
   (\<forall>ts. tiles s = Some ts \<longrightarrow> tiles_or_empty s = ts) \<and>
   asdict t =
     PDict [(''id'', tile_id t), (''title'', title t), (''color'', color t),
            (''icon_path'', icon_path t), (''action_type'', action_type t),
            (''action_value'', action_value t), (''size'', tile_size t),
            (''row'', row t), (''col'', col t)] \<and>
   (\<not> writable f p \<longrightarrow> save f p s = (f, Some OSError)) \<and>
   (writable f p \<and> disk_full f \<longrightarrow>
      save f p s = (f\<lparr>file_at := (file_at f)(p \<mapsto> Malformed)\<rparr>, Some OSError))"
proof (intro conjI impI allI)
  assume "writable f p \<and> \<not> disk_full f"
  then show "save f p s =
        (f\<lparr>file_at := (file_at f)(p \<mapsto> Json (PDict [(''theme'', theme s), (''columns'', columns s),
               (''tiles'', PList (map asdict (tiles_or_empty s)))]))\<rparr>, None)"
    by (simp add: save_ok payload_def)
next
  fix f' assume "save f p s = (f', None)"
  from save_None [OF this]
  show "file_at f' p = Some (Json (PDict [(''theme'', theme s), (''columns'', columns s),
               (''tiles'', PList (map asdict (tiles_or_empty s)))]))"
    by (simp add: payload_def)
next
  fix f' out q assume "save f p s = (f', out) \<and> q \<noteq> p"
  then show "file_at f' q = file_at f q"
    by (auto simp: save_def Let_def split: if_splits)
next
  assume "tiles s = None"
  then show "tiles_or_empty s = []" by (simp add: tiles_or_empty_def)
next
  fix ts assume "tiles s = Some ts"
  then show "tiles_or_empty s = ts" by (simp add: tiles_or_empty_def)
next
  show "asdict t =
     PDict [(''id'', tile_id t), (''title'', title t), (''color'', color t),
            (''icon_path'', icon_path t), (''action_type'', action_type t),
            (''action_value'', action_value t), (''size'', tile_size t),
            (''row'', row t), (''col'', col t)]"
    by (rule asdict_def)
next
  assume "\<not> writable f p"
  then show "save f p s = (f, Some OSError)" by (simp add: save_def)
next
  assume "writable f p \<and> disk_full f"
  then show "save f p s = (f\<lparr>file_at := (file_at f)(p \<mapsto> Malformed)\<rparr>, Some OSError)"
    by (simp add: save_def)
qed

theorem save_writes_payload_witness:
  "save \<lparr>file_at = (\<lambda>q. None), readable = (\<lambda>q. True), writable = (\<lambda>q. True), disk_full = False\<rparr>
       ''cfg''
       \<lparr>theme = PStr ''light'', columns = PInt 3,
        tiles = Some [(new_Tile (PStr ''a'') (PStr ''A''))\<lparr>tile_size := PStr ''wide''\<rparr>]\<rparr>
     = (\<lparr>file_at = (\<lambda>q. None)(''cfg'' \<mapsto> Json (PDict [(''theme'', PStr ''light''),
          (''columns'', PInt 3),
          (''tiles'', PList [PDict [(''id'', PStr ''a''), (''title'', PStr ''A''),
             (''color'', PStr ''#0078D7''), (''icon_path'', PNone), (''action_type'', PStr ''url''),
             (''action_value'', PStr ''''), (''size'', PStr ''wide''), (''row'', PInt 0),
             (''col'', PInt 0)]])])),
         readable = (\<lambda>q. True), writable = (\<lambda>q. True), disk_full = False\<rparr>, None) \<and>
   save \<lparr>file_at = (\<lambda>q. None), readable = (\<lambda>q. True), writable = (\<lambda>q. True), disk_full = False\<rparr>
       ''cfg'' \<lparr>theme = PStr ''light'', columns = PInt 3, tiles = None\<rparr>
     = (\<lparr>file_at = (\<lambda>q. None)(''cfg'' \<mapsto> Json (PDict [(''theme'', PStr ''light''),
          (''columns'', PInt 3), (''tiles'', PList [])])),
         readable = (\<lambda>q. True), writable = (\<lambda>q. True), disk_full = False\<rparr>, None)"
proof -
  let ?f = "\<lparr>file_at = (\<lambda>q. None), readable = (\<lambda>q. True), writable = (\<lambda>q. True), disk_full = False\<rparr>"
  let ?t = "(new_Tile (PStr ''a'') (PStr ''A''))\<lparr>tile_size := PStr ''wide''\<rparr>"
  let ?s = "\<lparr>theme = PStr ''light'', columns = PInt 3, tiles = Some [?t]\<rparr>"
  let ?n = "\<lparr>theme = PStr ''light'', columns = PInt 3, tiles = (None :: Tile list option)\<rparr>"
  note a = save_writes_payload [where f = ?f and p = "''cfg''" and s = ?s and t = ?t]
  note b = save_writes_payload [where f = ?f and p = "''cfg''" and s = ?n and t = ?t]
  have w: "writable ?f ''cfg'' \<and> \<not> disk_full ?f" by simp
  from w have 1: "save ?f ''cfg'' ?s =
        (?f\<lparr>file_at := (file_at ?f)(''cfg'' \<mapsto> Json (PDict [(''theme'', theme ?s), (''columns'', columns ?s),
               (''tiles'', PList (map asdict (tiles_or_empty ?s)))]))\<rparr>, None)"
    by (rule a [THEN conjunct1, rule_format])
  have "tiles ?s = Some [?t]" by simp
  then have 2: "tiles_or_empty ?s = [?t]"
    by (rule a [THEN conjunct2, THEN conjunct2, THEN conjunct2, THEN conjunct2, THEN conjunct1, rule_format])
  have 3: "asdict ?t =
     PDict [(''id'', tile_id ?t), (''title'', title ?t), (''color'', color ?t),
            (''icon_path'', icon_path ?t), (''action_type'', action_type ?t),
            (''action_value'', action_value ?t), (''size'', tile_size ?t),
            (''row'', row ?t), (''col'', col ?t)]"
    by (rule a [THEN conjunct2, THEN conjunct2, THEN conjunct2, THEN conjunct2, THEN conjunct2, THEN conjunct1])
  from w have 4: "save ?f ''cfg'' ?n =
        (?f\<lparr>file_at := (file_at ?f)(''cfg'' \<mapsto> Json (PDict [(''theme'', theme ?n), (''columns'', columns ?n),
               (''tiles'', PList (map asdict (tiles_or_empty ?n)))]))\<rparr>, None)"
    by (rule b [THEN conjunct1, rule_format])
  have "tiles ?n = None" by simp
  then have 5: "tiles_or_empty ?n = []"
    by (rule b [THEN conjunct2, THEN conjunct2, THEN conjunct2, THEN conjunct1, rule_format])
  show ?thesis
    unfolding 1 4 unfolding 2 5 list.map unfolding 3 by (simp add: new_Tile_def)
qed

text \<open>
  C4. For every state whose \<open>tiles\<close> field is a list: when \<open>save\<close> has returned and the
  file can be opened for reading, \<open>load\<close> on the same path returns a state equal to the
  saved one, that is the same theme, the same column count and the same list of tiles,
  field for field. Under the conditions on the file system under which \<open>save\<close> returns,
  it does return, so that the round trip takes place.
\<close>

theorem save_load_round_trip:
  "(tiles s = Some ts \<and> save f p s = (f', None) \<and> readable f' p \<longrightarrow> load ev f' p = Inr s) \<and>
   (tiles s = Some ts \<and> writable f p \<and> \<not> disk_full f \<and> readable f p \<longrightarrow>
      (\<exists>f'. save f p s = (f', None) \<and> load ev f' p = Inr s))"
proof (intro conjI impI)
  assume "tiles s = Some ts \<and> save f p s = (f', None) \<and> readable f' p"
  then show "load ev f' p = Inr s" using save_load by blast
next
  assume a: "tiles s = Some ts \<and> writable f p \<and> \<not> disk_full f \<and> readable f p"
  let ?f' = "f\<lparr>file_at := (file_at f)(p \<mapsto> Json (payload s))\<rparr>"
  from a have sv: "save f p s = (?f', None)" by (simp add: save_ok)
  moreover have "readable ?f' p" using a by simp
  ultimately have "load ev ?f' p = Inr s" using a save_load by blast
  with sv show "\<exists>f'. save f p s = (f', None) \<and> load ev f' p = Inr s" by blast
qed

theorem save_load_round_trip_witness:
  "\<exists>f'. save \<lparr>file_at = (\<lambda>q. None), readable = (\<lambda>q. True), writable = (\<lambda>q. True), disk_full = False\<rparr>
       ''cfg''
       \<lparr>theme = PStr ''light'', columns = PInt 3,
        tiles = Some [(new_Tile (PStr ''a'') (PStr ''A''))\<lparr>tile_size := PStr ''wide''\<rparr>,
                      new_Tile (PStr ''b'') (PStr ''B'')]\<rparr> = (f', None) \<and>
     load \<lparr>platform = ''linux'', home = ''/home/u''\<rparr> f' ''cfg''
       = Inr \<lparr>theme = PStr ''light'', columns = PInt 3,
        tiles = Some [(new_Tile (PStr ''a'') (PStr ''A''))\<lparr>tile_size := PStr ''wide''\<rparr>,
                      new_Tile (PStr ''b'') (PStr ''B'')]\<rparr>"
proof -
  let ?f = "\<lparr>file_at = (\<lambda>q. None), readable = (\<lambda>q. True), writable = (\<lambda>q. True), disk_full = False\<rparr>"
  let ?ts = "[(new_Tile (PStr ''a'') (PStr ''A''))\<lparr>tile_size := PStr ''wide''\<rparr>,
                      new_Tile (PStr ''b'') (PStr ''B'')]"
  let ?s = "\<lparr>theme = PStr ''light'', columns = PInt 3, tiles = Some ?ts\<rparr>"
  have "tiles ?s = Some ?ts \<and> writable ?f ''cfg'' \<and> \<not> disk_full ?f \<and> readable ?f ''cfg''"
    by simp
  then show ?thesis
    by (rule save_load_round_trip [where s = ?s and ts = ?ts and f = ?f and p = "''cfg''"
      and ev = "\<lparr>platform = ''linux'', home = ''/home/u''\<rparr>", THEN conjunct2, rule_format])
qed

end
